theory Spec2Isabelle
  imports Complex_Main "HOL-Library.Multiset"
begin

section \<open>JavaScript values as the hook sees them\<close>

text \<open>
  \<^verbatim>\<open>src/hooks/useTasks.ts\<close> holds two listings of the hook \<^verbatim>\<open>useTasks\<close>: the first
  (lines 1 to 218) and the second (lines 219 to 449). They share \<^verbatim>\<open>addTask\<close>,
  \<^verbatim>\<open>deleteTask\<close>, \<^verbatim>\<open>undoDelete\<close>, the metrics and the load effect, and differ in
  \<^verbatim>\<open>normalizeTasks\<close> and \<^verbatim>\<open>updateTask\<close>. Definitions of the second listing that
  differ carry the suffix \<open>2\<close>.

  A Number is NaN, an infinity or a finite value. Only comparisons with zero, the
  remainder by 28 and the truncation of a time value are computed here, and all of these
  are exact on doubles; every operation that rounds is a parameter of the runtime below.
\<close>

datatype jsnum = NaN | PosInfinity | NegInfinity | Finite real

text \<open>
  The raw input is what \<^verbatim>\<open>res.json()\<close> resolves to, so a value is a JSON value, or
  \<^verbatim>\<open>undefined\<close> for a property that is absent. An object is the list of its own
  properties; the first binding of a key is the one that counts.
\<close>

datatype jsval =
    JUndefined
  | JNull
  | JBool bool
  | JNum jsnum
  | JStr string
  | JArr "jsval list"
  | JObj "(string \<times> jsval) list"

text \<open>The exceptions that the built-in operations used by the hook can throw.\<close>

datatype exn = TypeError | RangeError

text \<open>
  The part of the engine that is floating point or implementation defined is a parameter:
  \<^item> \<open>StringToNumber\<close>: \<^verbatim>\<open>Number(s)\<close> on a String;
  \<^item> \<open>NumberToString\<close>: \<^verbatim>\<open>String(n)\<close> on a Number;
  \<^item> \<open>NumberAdd\<close>: \<^verbatim>\<open>a + b\<close> on two Numbers;
  \<^item> \<open>DateParse\<close>: \<^verbatim>\<open>Date.parse(s)\<close>, a time value in milliseconds or \<open>None\<close> for NaN;
  \<^item> \<open>UTC\<close>: the UTC time value of a local time value (the time zone of the host);
  \<^item> \<open>ErrorMessage\<close>: the \<^verbatim>\<open>message\<close> of a thrown built-in exception.
\<close>

record runtime =
  StringToNumber :: "string \<Rightarrow> jsnum"
  NumberToString :: "jsnum \<Rightarrow> string"
  NumberAdd :: "jsnum \<Rightarrow> jsnum \<Rightarrow> jsnum"
  DateParse :: "string \<Rightarrow> int option"
  UTC :: "int \<Rightarrow> int"
  ErrorMessage :: "exn \<Rightarrow> string"

definition and_then :: "exn + 'a \<Rightarrow> ('a \<Rightarrow> exn + 'b) \<Rightarrow> exn + 'b" where
  "and_then m f = (case m of Inl e \<Rightarrow> Inl e | Inr x \<Rightarrow> f x)"

subsection \<open>Conversions\<close>

text \<open>\<^verbatim>\<open>n > 0\<close>, \<^verbatim>\<open>n <= 0\<close> and the truth value of a Number; each is false on NaN.\<close>

fun gt0 :: "jsnum \<Rightarrow> bool" where
  "gt0 NaN = False"
| "gt0 PosInfinity = True"
| "gt0 NegInfinity = False"
| "gt0 (Finite r) = (r > 0)"

fun le0 :: "jsnum \<Rightarrow> bool" where
  "le0 NaN = False"
| "le0 PosInfinity = False"
| "le0 NegInfinity = True"
| "le0 (Finite r) = (r \<le> 0)"

fun truthy_num :: "jsnum \<Rightarrow> bool" where
  "truthy_num NaN = False"
| "truthy_num (Finite r) = (r \<noteq> 0)"
| "truthy_num n = True"

text \<open>ToBoolean, as \<^verbatim>\<open>!x\<close>, \<^verbatim>\<open>x ? a : b\<close> and \<^verbatim>\<open>x || y\<close> apply it.\<close>

fun truthy :: "jsval \<Rightarrow> bool" where
  "truthy JUndefined = False"
| "truthy JNull = False"
| "truthy (JBool b) = b"
| "truthy (JNum n) = truthy_num n"
| "truthy (JStr s) = (s \<noteq> [])"
| "truthy (JArr xs) = True"
| "truthy (JObj kv) = True"

text \<open>\<^verbatim>\<open>a ?? b\<close>: the right operand only when the left one is null or undefined.\<close>

fun coalesce :: "jsval \<Rightarrow> jsval \<Rightarrow> jsval" where
  "coalesce JUndefined b = b"
| "coalesce JNull b = b"
| "coalesce a b = a"

text \<open>
  \<^verbatim>\<open>t.k\<close> on a value that is neither null nor undefined, for the nine field names of a
  task (none of them is a built-in property of a String, Number, Boolean, Array or Object).
\<close>

fun field :: "jsval \<Rightarrow> string \<Rightarrow> jsval" where
  "field (JObj kv) k = (case map_of kv k of None \<Rightarrow> JUndefined | Some v \<Rightarrow> v)"
| "field v k = JUndefined"

definition nullish :: "jsval \<Rightarrow> bool" where
  "nullish v = (v = JUndefined \<or> v = JNull)"

text \<open>
  ToString. An Array joins the strings of its elements with commas, null and undefined
  elements giving the empty string. A plain object gives \<^verbatim>\<open>[object Object]\<close>, unless it
  has an own property \<^verbatim>\<open>toString\<close>: a JSON value is never callable, so no method then
  yields a primitive and the conversion throws a TypeError.
\<close>

fun ToString :: "runtime \<Rightarrow> jsval \<Rightarrow> exn + string"
  and join :: "runtime \<Rightarrow> jsval list \<Rightarrow> exn + string" where
  "ToString rt JUndefined = Inr ''undefined''"
| "ToString rt JNull = Inr ''null''"
| "ToString rt (JBool b) = Inr (if b then ''true'' else ''false'')"
| "ToString rt (JNum n) = Inr (NumberToString rt n)"
| "ToString rt (JStr s) = Inr s"
| "ToString rt (JArr xs) = join rt xs"
| "ToString rt (JObj kv) =
     (if ''toString'' \<in> set (map fst kv) then Inl TypeError else Inr ''[object Object]'')"
| "join rt [] = Inr []"
| "join rt (x # xs) =
     (case (if x = JUndefined \<or> x = JNull then Inr [] else ToString rt x) of
        Inl e \<Rightarrow> Inl e
      | Inr s \<Rightarrow>
          (if xs = [] then Inr s
           else (case join rt xs of Inl e \<Rightarrow> Inl e | Inr r \<Rightarrow> Inr (s @ '','' @ r))))"

text \<open>ToNumber, that is \<^verbatim>\<open>Number(v)\<close>; an Array or Object goes through its string.\<close>

fun ToNumber :: "runtime \<Rightarrow> jsval \<Rightarrow> exn + jsnum" where
  "ToNumber rt JUndefined = Inr NaN"
| "ToNumber rt JNull = Inr (Finite 0)"
| "ToNumber rt (JBool b) = Inr (Finite (if b then 1 else 0))"
| "ToNumber rt (JNum n) = Inr n"
| "ToNumber rt (JStr s) = Inr (StringToNumber rt s)"
| "ToNumber rt v = and_then (ToString rt v) (\<lambda>s. Inr (StringToNumber rt s))"

subsection \<open>Dates\<close>

text \<open>
  A Date object is its time value: milliseconds since the epoch, or \<open>None\<close> for the
  NaN of an Invalid Date.
\<close>

definition trunc :: "real \<Rightarrow> int" where
  "trunc r = (if r \<ge> 0 then \<lfloor>r\<rfloor> else \<lceil>r\<rceil>)"

fun TimeClip :: "jsnum \<Rightarrow> int option" where
  "TimeClip (Finite r) = (if \<bar>r\<bar> > 8640000000000000 then None else Some (trunc r))"
| "TimeClip n = None"

text \<open>\<^verbatim>\<open>new Date(v)\<close>: a String is parsed, any other value is converted to a Number.\<close>

fun newDate :: "runtime \<Rightarrow> jsval \<Rightarrow> exn + int option" where
  "newDate rt (JStr s) = Inr (DateParse rt s)"
| "newDate rt (JArr xs) = and_then (ToString rt (JArr xs)) (\<lambda>s. Inr (DateParse rt s))"
| "newDate rt (JObj kv) = and_then (ToString rt (JObj kv)) (\<lambda>s. Inr (DateParse rt s))"
| "newDate rt v = and_then (ToNumber rt v) (\<lambda>n. Inr (TimeClip n))"

text \<open>\<^verbatim>\<open>new Date(ms)\<close> on a Number that is an integer, as the sums of time values are.\<close>

definition newDateMs :: "int \<Rightarrow> int option" where
  "newDateMs ms = TimeClip (Finite (of_int ms))"

text \<open>
  \<^verbatim>\<open>d.toISOString()\<close>: \<^verbatim>\<open>YYYY-MM-DDTHH:mm:ss.sssZ\<close> in UTC, the year with a sign and six
  digits outside 0 to 9999; a RangeError on an Invalid Date.
\<close>

definition digit_char :: "int \<Rightarrow> char" where
  "digit_char d = ''0123456789'' ! nat d"

definition pad2 :: "int \<Rightarrow> string" where
  "pad2 n = [digit_char (n div 10 mod 10), digit_char (n mod 10)]"

definition pad3 :: "int \<Rightarrow> string" where
  "pad3 n = digit_char (n div 100 mod 10) # pad2 n"

definition pad4 :: "int \<Rightarrow> string" where
  "pad4 n = digit_char (n div 1000 mod 10) # pad3 n"

definition pad6 :: "int \<Rightarrow> string" where
  "pad6 n = digit_char (n div 100000 mod 10) # digit_char (n div 10000 mod 10) # pad4 n"

text \<open>Year, month (1 to 12) and day of the month of a day number counted from the epoch.\<close>

definition civil :: "int \<Rightarrow> int \<times> int \<times> int" where
  "civil days =
     (let z = days + 719468;
          era = z div 146097;
          doe = z - era * 146097;
          yoe = (doe - doe div 1460 + doe div 36524 - doe div 146096) div 365;
          doy = doe - (365 * yoe + yoe div 4 - yoe div 100);
          mp = (5 * doy + 2) div 153;
          d = doy - (153 * mp + 2) div 5 + 1;
          m = (if mp < 10 then mp + 3 else mp - 9);
          y = yoe + era * 400 + (if m \<le> 2 then 1 else 0)
      in (y, m, d))"

definition year_string :: "int \<Rightarrow> string" where
  "year_string y =
     (if 0 \<le> y \<and> y \<le> 9999 then pad4 y
      else (if y < 0 then ''-'' else ''+'') @ pad6 \<bar>y\<bar>)"

definition iso_string :: "int \<Rightarrow> string" where
  "iso_string tv =
     (let ms = tv mod 86400000 in
      case civil (tv div 86400000) of (y, m, d) \<Rightarrow>
        year_string y @ ''-'' @ pad2 m @ ''-'' @ pad2 d @ ''T'' @
        pad2 (ms div 3600000) @ '':'' @ pad2 (ms div 60000 mod 60) @ '':'' @
        pad2 (ms div 1000 mod 60) @ ''.'' @ pad3 (ms mod 1000) @ ''Z'')"

definition toISOString :: "int option \<Rightarrow> exn + string" where
  "toISOString d = (case d of None \<Rightarrow> Inl RangeError | Some tv \<Rightarrow> Inr (iso_string tv))"

section \<open>The task record\<close>

text \<open>
  The type \<^verbatim>\<open>Task\<close> is declared in \<^verbatim>\<open>@/types\<close>. The normalizer casts raw values to
  it, so at run time the fields it passes through hold any value; \<open>revenue\<close> and
  \<open>timeTaken\<close> always hold a Number and \<open>createdAt\<close> a String.
\<close>

record task =
  id' :: jsval
  title :: jsval
  revenue :: jsnum
  timeTaken :: jsnum
  priority :: jsval
  status :: jsval
  notes' :: jsval
  createdAt :: string
  completedAt :: jsval

definition Done :: jsval where
  "Done = JStr ''Done''"

definition day_ms :: int where
  "day_ms = 24 * 3600 * 1000"

section \<open>normalizeTasks, first listing (lines 45 to 70)\<close>

text \<open>
  \<^verbatim>\<open>Number(x) ?? 0\<close>: the left operand is a Number, which the operator tests for null
  and undefined like any other value.
\<close>

definition number_or_zero :: "jsnum \<Rightarrow> jsnum" where
  "number_or_zero n = (case coalesce (JNum n) (JNum (Finite 0)) of JNum m \<Rightarrow> m | _ \<Rightarrow> NaN)"

text \<open>
  The completion time of a row (lines 52 to 56 and 280 to 284): the raw value when it is
  truthy, else one day after \<open>created\<close> when the status is Done, else undefined.
\<close>

definition completed_of :: "jsval \<Rightarrow> int option \<Rightarrow> exn + jsval" where
  "completed_of t created =
     (if truthy (field t ''completedAt'') then Inr (field t ''completedAt'')
      else if field t ''status'' = Done then
        and_then (toISOString (case created of None \<Rightarrow> None | Some c \<Rightarrow> newDateMs (c + day_ms)))
          (\<lambda>s. Inr (JStr s))
      else Inr JUndefined)"

text \<open>
  The callback of \<^verbatim>\<open>map\<close>: one raw row \<open>t\<close> at index \<open>idx\<close>, with \<open>now\<close> the value of
  \<^verbatim>\<open>Date.now()\<close>. The first read of a property throws a TypeError on a row that is null
  or undefined. \<open>created_of\<close> is the constant \<^verbatim>\<open>created\<close> (lines 48 to 50); its
  fallback time is computed on integers, which is what the doubles give while the product
  stays below \<open>2^53\<close> (an index below \<open>10^8\<close>).
\<close>

definition created_of :: "runtime \<Rightarrow> int \<Rightarrow> jsval \<Rightarrow> nat \<Rightarrow> exn + int option" where
  "created_of rt now t idx =
     (if truthy (field t ''createdAt'') then newDate rt (field t ''createdAt'')
      else Inr (newDateMs (now - (int idx + 1) * 24 * 3600 * 1000)))"

definition normalizeTask :: "runtime \<Rightarrow> int \<Rightarrow> jsval \<Rightarrow> nat \<Rightarrow> exn + task" where
  "normalizeTask rt now t idx =
     (if nullish t then Inl TypeError
      else
        and_then (created_of rt now t idx)
        (\<lambda>created. and_then (completed_of t created)
        (\<lambda>completed. and_then (ToString rt (field t ''id''))
        (\<lambda>i. and_then (ToString rt (field t ''title''))
        (\<lambda>ti. and_then (ToNumber rt (field t ''revenue''))
        (\<lambda>rev. and_then (ToNumber rt (field t ''timeTaken''))
        (\<lambda>tt. and_then (toISOString created)
        (\<lambda>cr. Inr \<lparr> id' = JStr i, title = JStr ti,
                  revenue = number_or_zero rev,
                  timeTaken = (if gt0 tt then tt else Finite 1),
                  priority = field t ''priority'',
                  status = field t ''status'',
                  notes' = coalesce (field t ''notes'') (JStr []),
                  createdAt = cr,
                  completedAt = completed \<rparr>))))))))"

text \<open>\<^verbatim>\<open>xs.map(f)\<close> from index \<open>idx\<close> on; the first exception ends the whole call.\<close>

fun map_rows :: "(jsval \<Rightarrow> nat \<Rightarrow> exn + task) \<Rightarrow> nat \<Rightarrow> jsval list \<Rightarrow> exn + task list" where
  "map_rows f idx [] = Inr []"
| "map_rows f idx (t # ts) =
     (case f t idx of
        Inl e \<Rightarrow> Inl e
      | Inr r \<Rightarrow> (case map_rows f (Suc idx) ts of Inl e \<Rightarrow> Inl e | Inr rs \<Rightarrow> Inr (r # rs)))"

text \<open>\<^verbatim>\<open>Array.isArray(input) ? input : []\<close>\<close>

fun rows_of :: "jsval \<Rightarrow> jsval list" where
  "rows_of (JArr xs) = xs"
| "rows_of v = []"

definition normalizeTasks :: "runtime \<Rightarrow> int \<Rightarrow> jsval \<Rightarrow> exn + task list" where
  "normalizeTasks rt now input = map_rows (normalizeTask rt now) 0 (rows_of input)"

section \<open>normalizeTasks, second listing (lines 265 to 298)\<close>

definition is_digit :: "char \<Rightarrow> bool" where
  "is_digit c = (c \<in> set ''0123456789'')"

text \<open>\<^verbatim>\<open>a % b\<close> for a finite divisor \<open>b\<close> other than zero; the sign is that of \<open>a\<close>.\<close>

fun remainder :: "jsnum \<Rightarrow> real \<Rightarrow> jsnum" where
  "remainder (Finite a) b = Finite (a - b * of_int (trunc (a / b)))"
| "remainder n b = NaN"

text \<open>
  \<^verbatim>\<open>new Date(2020, 0, d)\<close>: day \<open>d\<close> of January 2020 at local midnight. 1 January 2020
  is day 18262 from the epoch.
\<close>

fun local_date_2020 :: "runtime \<Rightarrow> jsnum \<Rightarrow> int option" where
  "local_date_2020 rt (Finite d) = newDateMs (UTC rt ((18262 + trunc d - 1) * day_ms))"
| "local_date_2020 rt n = None"

text \<open>
  \<^verbatim>\<open>stableDateFromId\<close> (lines 267 to 271). Only a String has the method
  \<^verbatim>\<open>replace\<close>: on any other value the call throws a TypeError.
\<close>

fun stableDateFromId :: "runtime \<Rightarrow> jsval \<Rightarrow> exn + int option" where
  "stableDateFromId rt (JStr s) =
     (let n = StringToNumber rt (filter is_digit s);
          num = (if truthy_num n then n else Finite 1)
      in Inr (local_date_2020 rt (NumberAdd rt (remainder num 28) (Finite 1))))"
| "stableDateFromId rt v = Inl TypeError"

text \<open>The constant \<^verbatim>\<open>created\<close> of the second listing (lines 275 to 277).\<close>

definition created_of2 :: "runtime \<Rightarrow> jsval \<Rightarrow> exn + int option" where
  "created_of2 rt t =
     (if truthy (field t ''createdAt'') then newDate rt (field t ''createdAt'')
      else stableDateFromId rt (coalesce (field t ''id'') (JStr [])))"

definition normalizeTask2 :: "runtime \<Rightarrow> jsval \<Rightarrow> exn + task" where
  "normalizeTask2 rt t =
     (if nullish t then Inl TypeError
      else
        and_then (created_of2 rt t)
        (\<lambda>created. and_then (completed_of t created)
        (\<lambda>completed. and_then (ToNumber rt (field t ''revenue''))
        (\<lambda>rev. and_then (ToNumber rt (field t ''timeTaken''))
        (\<lambda>tt. and_then (toISOString created)
        (\<lambda>cr. Inr \<lparr> id' = field t ''id'', title = field t ''title'',
                  revenue = number_or_zero rev,
                  timeTaken = (if gt0 tt then tt else Finite 1),
                  priority = field t ''priority'',
                  status = field t ''status'',
                  notes' = field t ''notes'',
                  createdAt = cr,
                  completedAt = completed \<rparr>))))))"

definition normalizeTasks2 :: "runtime \<Rightarrow> jsval \<Rightarrow> exn + task list" where
  "normalizeTasks2 rt input = map_rows (\<lambda>t idx. normalizeTask2 rt t) 0 (rows_of input)"

section \<open>The state of the hook\<close>

text \<open>
  The state of one mounted instance of the hook: the four \<^verbatim>\<open>useState\<close> values, the
  ref, and what the closures hold. \<open>captured\<close> is the value of \<^verbatim>\<open>lastDeleted\<close> in the
  last render, which is what the current \<^verbatim>\<open>undoDelete\<close> callback closes over
  (\<^verbatim>\<open>useCallback\<close> with the dependency \<^verbatim>\<open>lastDeleted\<close>, lines 200 to 204 and 423 to
  427). One entry of \<open>loads\<close> stands for one call of \<^verbatim>\<open>load()\<close>: the variable
  \<^verbatim>\<open>isMounted\<close> of its closure while the fetch is pending.
\<close>

datatype load = Pending bool | Settled

record state =
  tasks :: "task list"
  loading :: bool
  error :: "string option"
  lastDeleted :: "task option"
  captured :: "task option"
  fetchedRef :: bool
  loads :: "load list"

definition initial :: state where
  "initial = \<lparr> tasks = [], loading = True, error = None, lastDeleted = None,
               captured = None, fetchedRef = False, loads = [] \<rparr>"

text \<open>React renders the component again: the callbacks are made anew.\<close>

definition render :: "state \<Rightarrow> state" where
  "render s = s\<lparr> captured := lastDeleted s \<rparr>"

section \<open>Metrics (lines 28 to 35, 124 to 135)\<close>

record Metrics =
  totalRevenue :: jsnum
  totalTimeTaken :: jsnum
  timeEfficiencyPct :: jsnum
  revenuePerHour :: jsnum
  averageROI :: jsnum
  performanceGrade :: string

text \<open>
  The functions imported from \<^verbatim>\<open>@/utils/logic\<close> and \<^verbatim>\<open>@/utils/seed\<close> are parameters.
\<close>

record modules =
  computeTotalRevenue :: "task list \<Rightarrow> jsnum"
  computeTimeEfficiency :: "task list \<Rightarrow> jsnum"
  computeRevenuePerHour :: "task list \<Rightarrow> jsnum"
  computeAverageROI :: "task list \<Rightarrow> jsnum"
  computePerformanceGrade :: "jsnum \<Rightarrow> string"
  generateSalesTasks :: "nat \<Rightarrow> task list"

definition INITIAL_METRICS :: Metrics where
  "INITIAL_METRICS =
     \<lparr> totalRevenue = Finite 0, totalTimeTaken = Finite 0, timeEfficiencyPct = Finite 0,
       revenuePerHour = Finite 0, averageROI = Finite 0,
       performanceGrade = ''Needs Improvement'' \<rparr>"

definition metrics :: "runtime \<Rightarrow> modules \<Rightarrow> task list \<Rightarrow> Metrics" where
  "metrics rt md ts =
     (if length ts = 0 then INITIAL_METRICS
      else \<lparr> totalRevenue = computeTotalRevenue md ts,
             totalTimeTaken = foldl (\<lambda>s t. NumberAdd rt s (timeTaken t)) (Finite 0) ts,
             timeEfficiencyPct = computeTimeEfficiency md ts,
             revenuePerHour = computeRevenuePerHour md ts,
             averageROI = computeAverageROI md ts,
             performanceGrade = computePerformanceGrade md (computeAverageROI md ts) \<rparr>)"

section \<open>CRUD operations (lines 140 to 204, 376 to 434)\<close>

text \<open>
  An operation is a function on the state. \<^verbatim>\<open>addTask\<close>, \<^verbatim>\<open>updateTask\<close> and
  \<^verbatim>\<open>deleteTask\<close> pass updater functions to \<^verbatim>\<open>setTasks\<close>, which React applies in the
  order of the calls, so they act on the state that the calls before them left, with or
  without a render in between. \<^verbatim>\<open>undoDelete\<close> reads the \<^verbatim>\<open>lastDeleted\<close> that its
  closure holds, which is that of the last render and not that of the state.

  The argument of \<^verbatim>\<open>addTask\<close>: a task with an optional id. Its \<^verbatim>\<open>createdAt\<close> and
  \<^verbatim>\<open>completedAt\<close> are overwritten, so they are left out.
\<close>

record new_task =
  new_id :: "string option"
  new_title :: jsval
  new_revenue :: jsnum
  new_timeTaken :: jsnum
  new_priority :: jsval
  new_status :: jsval
  new_notes :: jsval

text \<open>\<open>uuid\<close> is what \<^verbatim>\<open>crypto.randomUUID()\<close> returns and \<open>now\<close> the time of \<^verbatim>\<open>new Date()\<close>.\<close>

definition addTask :: "string \<Rightarrow> int \<Rightarrow> new_task \<Rightarrow> state \<Rightarrow> state" where
  "addTask uuid now nt s =
     s\<lparr> tasks := tasks s @
          [\<lparr> id' = JStr (case new_id nt of None \<Rightarrow> uuid | Some i \<Rightarrow> i),
             title = new_title nt,
             revenue = new_revenue nt,
             timeTaken = (if le0 (new_timeTaken nt) then Finite 1 else new_timeTaken nt),
             priority = new_priority nt,
             status = new_status nt,
             notes' = new_notes nt,
             createdAt = iso_string now,
             completedAt = (if new_status nt = Done then JStr (iso_string now) else JUndefined) \<rparr>] \<rparr>"

text \<open>\<^verbatim>\<open>Partial<Task>\<close>: a field is \<open>None\<close> when the patch does not have it.\<close>

record patch =
  p_id :: "jsval option"
  p_title :: "jsval option"
  p_revenue :: "jsnum option"
  p_timeTaken :: "jsnum option"
  p_priority :: "jsval option"
  p_status :: "jsval option"
  p_notes :: "jsval option"
  p_createdAt :: "string option"
  p_completedAt :: "jsval option"

text \<open>The result is a value, not an exception or an error message.\<close>

fun succeeded :: "'e + 'a \<Rightarrow> bool" where
  "succeeded (Inr x) = True"
| "succeeded (Inl e) = False"

definition or_else :: "'a option \<Rightarrow> 'a \<Rightarrow> 'a" where
  "or_else p v = (case p of None \<Rightarrow> v | Some x \<Rightarrow> x)"

text \<open>\<^verbatim>\<open>{ ...t, ...patch }\<close>\<close>

definition merge :: "task \<Rightarrow> patch \<Rightarrow> task" where
  "merge t p =
     \<lparr> id' = or_else (p_id p) (id' t),
       title = or_else (p_title p) (title t),
       revenue = or_else (p_revenue p) (revenue t),
       timeTaken = or_else (p_timeTaken p) (timeTaken t),
       priority = or_else (p_priority p) (priority t),
       status = or_else (p_status p) (status t),
       notes' = or_else (p_notes p) (notes' t),
       createdAt = or_else (p_createdAt p) (createdAt t),
       completedAt = or_else (p_completedAt p) (completedAt t) \<rparr>"

text \<open>Lines 171 to 179 and 394 to 402: the merge and the completion stamp.\<close>

definition stamp :: "int \<Rightarrow> task \<Rightarrow> patch \<Rightarrow> task" where
  "stamp now t p =
     (let merged = merge t p in
      if status t \<noteq> Done \<and> status merged = Done \<and> \<not> truthy (completedAt merged)
      then merged\<lparr> completedAt := JStr (iso_string now) \<rparr>
      else merged)"

text \<open>First listing, lines 165 to 190.\<close>

definition updateTask :: "int \<Rightarrow> string \<Rightarrow> patch \<Rightarrow> state \<Rightarrow> state" where
  "updateTask now i p s =
     s\<lparr> tasks := map (\<lambda>t.
          if id' t \<noteq> JStr i then t
          else (let merged = stamp now t p in
                if le0 (or_else (p_timeTaken p) (timeTaken merged))
                then merged\<lparr> timeTaken := Finite 1 \<rparr>
                else merged)) (tasks s) \<rparr>"

text \<open>Second listing, lines 389 to 413: the clamp is a second pass over the merged list.\<close>

definition updateTask2 :: "int \<Rightarrow> string \<Rightarrow> patch \<Rightarrow> state \<Rightarrow> state" where
  "updateTask2 now i p s =
     (let next = map (\<lambda>t. if id' t \<noteq> JStr i then t else stamp now t p) (tasks s) in
      s\<lparr> tasks := map (\<lambda>t.
           if id' t = JStr i \<and> le0 (or_else (p_timeTaken p) (timeTaken t))
           then t\<lparr> timeTaken := Finite 1 \<rparr>
           else t) next \<rparr>)"

definition deleteTask :: "string \<Rightarrow> state \<Rightarrow> state" where
  "deleteTask i s =
     s\<lparr> lastDeleted := find (\<lambda>t. id' t = JStr i) (tasks s),
        tasks := filter (\<lambda>t. id' t \<noteq> JStr i) (tasks s) \<rparr>"

definition undoDelete :: "state \<Rightarrow> state" where
  "undoDelete s =
     (case captured s of
        None \<Rightarrow> s
      | Some t \<Rightarrow> s\<lparr> tasks := tasks s @ [t], lastDeleted := None \<rparr>)"

definition clearLastDeleted :: "state \<Rightarrow> state" where
  "clearLastDeleted s = s\<lparr> lastDeleted := None \<rparr>"

section \<open>The load effect (lines 75 to 114, 303 to 343)\<close>

text \<open>
  How the fetch of \<^verbatim>\<open>/tasks.json\<close> ends: \<^verbatim>\<open>fetch\<close> or \<^verbatim>\<open>res.json()\<close> rejects with a
  value whose \<^verbatim>\<open>message\<close> is given (\<open>None\<close> when it has none), the response is not ok
  and has the given status, or the body parses to a JSON value.
\<close>

datatype fetched = Rejected "string option" | NotOk nat | Json jsval

text \<open>
  The effect callback: the guard on \<^verbatim>\<open>fetchedRef\<close>, then a new closure with
  \<^verbatim>\<open>isMounted = true\<close> and the call of \<^verbatim>\<open>load()\<close>.
\<close>

definition effect :: "state \<Rightarrow> state" where
  "effect s =
     (if fetchedRef s then s
      else s\<lparr> fetchedRef := True, loads := loads s @ [Pending True] \<rparr>)"

text \<open>The cleanup that the \<open>k\<close>-th started effect returned: \<^verbatim>\<open>isMounted = false\<close>.\<close>

definition cleanup :: "nat \<Rightarrow> state \<Rightarrow> state" where
  "cleanup k s =
     (if k < length (loads s) \<and> loads s ! k \<noteq> Settled
      then s\<lparr> loads := (loads s)[k := Pending False] \<rparr>
      else s)"

text \<open>
  The body of \<^verbatim>\<open>try\<close> in \<^verbatim>\<open>load\<close>: the final tasks, or the message that the
  \<^verbatim>\<open>catch\<close> block stores. \<open>nz\<close> is \<^verbatim>\<open>normalizeTasks\<close>.
\<close>

definition load_body ::
  "runtime \<Rightarrow> modules \<Rightarrow> (jsval \<Rightarrow> exn + task list) \<Rightarrow> fetched \<Rightarrow> string + task list" where
  "load_body rt md nz r =
     (case r of
        Rejected m \<Rightarrow> Inl (or_else m ''Failed to load tasks'')
      | NotOk st \<Rightarrow>
          Inl (''Failed to load tasks.json ('' @ NumberToString rt (Finite (of_nat st)) @ '')'')
      | Json j \<Rightarrow>
          (case nz j of
             Inl e \<Rightarrow> Inl (ErrorMessage rt e)
           | Inr normalized \<Rightarrow>
               Inr (if length normalized > 0 then normalized else generateSalesTasks md 50)))"

text \<open>The fetch of the \<open>k\<close>-th call of \<^verbatim>\<open>load()\<close> settles and the rest of \<^verbatim>\<open>load\<close> runs.\<close>

definition settle ::
  "runtime \<Rightarrow> modules \<Rightarrow> (jsval \<Rightarrow> exn + task list) \<Rightarrow> nat \<Rightarrow> fetched \<Rightarrow> state \<Rightarrow> state" where
  "settle rt md nz k r s =
     (if k < length (loads s) \<and> loads s ! k \<noteq> Settled then
        (let s' = s\<lparr> loads := (loads s)[k := Settled] \<rparr> in
         if loads s ! k = Pending True then
           (case load_body rt md nz r of
              Inr final \<Rightarrow> s'\<lparr> tasks := final, loading := False \<rparr>
            | Inl msg \<Rightarrow> s'\<lparr> error := Some msg, loading := False \<rparr>)
         else s')
      else s)"

text \<open>
  The component is unmounted and mounted again. The cleanups of the old instance run, so
  the loads it started find \<^verbatim>\<open>isMounted\<close> false; the new instance starts with fresh
  state and a fresh ref.
\<close>

fun unmounted :: "load \<Rightarrow> load" where
  "unmounted (Pending b) = Pending False"
| "unmounted Settled = Settled"

definition remount :: "state \<Rightarrow> state" where
  "remount s = initial\<lparr> loads := map unmounted (loads s) \<rparr>"

text \<open>
  What can happen in a session: React renders, runs the effect or a cleanup, or unmounts
  the component and mounts it again; a fetch settles (at the given clock time); the user
  interface calls an operation.
\<close>

datatype event =
    Render
  | Effect
  | Cleanup nat
  | Remount
  | Settle nat int fetched
  | Add string int new_task
  | Update int string patch
  | Delete string
  | Undo
  | Clear

text \<open>First listing; it has no \<^verbatim>\<open>clearLastDeleted\<close>, so \<open>Clear\<close> does nothing there.\<close>

fun step :: "runtime \<Rightarrow> modules \<Rightarrow> event \<Rightarrow> state \<Rightarrow> state" where
  "step rt md Render s = render s"
| "step rt md Effect s = effect s"
| "step rt md (Cleanup k) s = cleanup k s"
| "step rt md Remount s = remount s"
| "step rt md (Settle k now r) s = settle rt md (normalizeTasks rt now) k r s"
| "step rt md (Add uuid now nt) s = addTask uuid now nt s"
| "step rt md (Update now i p) s = updateTask now i p s"
| "step rt md (Delete i) s = deleteTask i s"
| "step rt md Undo s = undoDelete s"
| "step rt md Clear s = s"

text \<open>Second listing.\<close>

fun step2 :: "runtime \<Rightarrow> modules \<Rightarrow> event \<Rightarrow> state \<Rightarrow> state" where
  "step2 rt md Render s = render s"
| "step2 rt md Effect s = effect s"
| "step2 rt md (Cleanup k) s = cleanup k s"
| "step2 rt md Remount s = remount s"
| "step2 rt md (Settle k now r) s = settle rt md (normalizeTasks2 rt) k r s"
| "step2 rt md (Add uuid now nt) s = addTask uuid now nt s"
| "step2 rt md (Update now i p) s = updateTask2 now i p s"
| "step2 rt md (Delete i) s = deleteTask i s"
| "step2 rt md Undo s = undoDelete s"
| "step2 rt md Clear s = clearLastDeleted s"

text \<open>The state after a sequence of events.\<close>

fun run :: "(event \<Rightarrow> state \<Rightarrow> state) \<Rightarrow> event list \<Rightarrow> state \<Rightarrow> state" where
  "run st [] s = s"
| "run st (e # es) s = run st es (st e s)"

text \<open>
  How many events of a sequence do what \<open>P\<close> describes, each judged in the state in which
  it happens.
\<close>

fun occurrences ::
  "(event \<Rightarrow> state \<Rightarrow> bool) \<Rightarrow> (event \<Rightarrow> state \<Rightarrow> state) \<Rightarrow> event list \<Rightarrow> state \<Rightarrow> nat" where
  "occurrences P st [] s = 0"
| "occurrences P st (e # es) s = (if P e s then 1 else 0) + occurrences P st es (st e s)"

text \<open>The event calls \<^verbatim>\<open>load()\<close>, and with it \<^verbatim>\<open>fetch\<close>.\<close>

fun fetches :: "event \<Rightarrow> state \<Rightarrow> bool" where
  "fetches Effect s = (\<not> fetchedRef s)"
| "fetches e s = False"

text \<open>The event runs \<^verbatim>\<open>normalizeTasks\<close>: a pending fetch settles with a JSON body.\<close>

fun normalizes :: "event \<Rightarrow> state \<Rightarrow> bool" where
  "normalizes (Settle k now (Json j)) s = (k < length (loads s) \<and> loads s ! k \<noteq> Settled)"
| "normalizes e s = False"

text \<open>The event reaches \<^verbatim>\<open>setTasks(finalTasks)\<close> in \<^verbatim>\<open>load\<close>.\<close>

fun seeds ::
  "runtime \<Rightarrow> modules \<Rightarrow> (int \<Rightarrow> jsval \<Rightarrow> exn + task list) \<Rightarrow> event \<Rightarrow> state \<Rightarrow> bool" where
  "seeds rt md nz (Settle k now r) s =
     (k < length (loads s) \<and> loads s ! k = Pending True \<and> succeeded (load_body rt md (nz now) r))"
| "seeds rt md nz e s = False"

section \<open>A host for closed examples\<close>

text \<open>
  The examples below run on \<open>host\<close>, an engine in the UTC time zone. Its parameters
  agree with ECMAScript on the inputs the examples use and are not meant beyond them:
  \<open>StringToNumber\<close> is right on strings of decimal digits below \<open>2^53\<close> (the empty
  string is 0) and on strings with a character that no numeric literal has;
  \<open>NumberToString\<close> on NaN, the infinities and integers below \<open>10^21\<close> in size;
  \<open>NumberAdd\<close> wherever the exact sum is a double; \<open>DateParse\<close> on strings of the
  form \<^verbatim>\<open>YYYY-MM-DDTHH:mm:ss.sssZ\<close> and on strings that hold no date.
\<close>

text \<open>The value of a decimal digit is its position among the ten digits.\<close>

definition digit_val :: "char \<Rightarrow> int" where
  "digit_val c = int (length (takeWhile (\<lambda>d. d \<noteq> c) ''0123456789''))"

definition digits_val :: "string \<Rightarrow> int" where
  "digits_val s = foldl (\<lambda>a c. 10 * a + digit_val c) 0 s"

definition host_StringToNumber :: "string \<Rightarrow> jsnum" where
  "host_StringToNumber s =
     (if list_all is_digit s then Finite (of_int (digits_val s)) else NaN)"

function decimal :: "nat \<Rightarrow> string" where
  "decimal n =
     (if n < 10 then [digit_char (int n)]
      else decimal (n div 10) @ [digit_char (int (n mod 10))])"
  by pat_completeness auto
termination
  by (relation "measure (\<lambda>n. n)") auto

declare decimal.simps [simp del]

fun host_NumberToString :: "jsnum \<Rightarrow> string" where
  "host_NumberToString NaN = ''NaN''"
| "host_NumberToString PosInfinity = ''Infinity''"
| "host_NumberToString NegInfinity = ''-Infinity''"
| "host_NumberToString (Finite r) = (if r < 0 then ''-'' else []) @ decimal (nat \<bar>trunc r\<bar>)"

fun host_NumberAdd :: "jsnum \<Rightarrow> jsnum \<Rightarrow> jsnum" where
  "host_NumberAdd (Finite a) (Finite b) = Finite (a + b)"
| "host_NumberAdd NaN b = NaN"
| "host_NumberAdd a NaN = NaN"
| "host_NumberAdd PosInfinity NegInfinity = NaN"
| "host_NumberAdd NegInfinity PosInfinity = NaN"
| "host_NumberAdd (Finite a) b = b"
| "host_NumberAdd a b = a"

text \<open>The day number of a date; \<open>civil\<close> is its inverse.\<close>

definition days_from_civil :: "int \<Rightarrow> int \<Rightarrow> int \<Rightarrow> int" where
  "days_from_civil y m d =
     (let y' = (if m \<le> 2 then y - 1 else y);
          era = y' div 400;
          yoe = y' - era * 400;
          doy = (153 * (if m > 2 then m - 3 else m + 9) + 2) div 5 + d - 1;
          doe = yoe * 365 + yoe div 4 - yoe div 100 + doy
      in era * 146097 + doe - 719468)"

definition host_DateParse :: "string \<Rightarrow> int option" where
  "host_DateParse s =
     (if length s = 24 \<and> list_all is_digit (take 4 s) \<and> s ! 4 = CHR ''-'' \<and>
         list_all is_digit (take 2 (drop 5 s)) \<and> s ! 7 = CHR ''-'' \<and>
         list_all is_digit (take 2 (drop 8 s)) \<and> s ! 10 = CHR ''T'' \<and>
         list_all is_digit (take 2 (drop 11 s)) \<and> s ! 13 = CHR '':'' \<and>
         list_all is_digit (take 2 (drop 14 s)) \<and> s ! 16 = CHR '':'' \<and>
         list_all is_digit (take 2 (drop 17 s)) \<and> s ! 19 = CHR ''.'' \<and>
         list_all is_digit (take 3 (drop 20 s)) \<and> s ! 23 = CHR ''Z''
      then
        (let y = digits_val (take 4 s); m = digits_val (take 2 (drop 5 s));
             d = digits_val (take 2 (drop 8 s)); hh = digits_val (take 2 (drop 11 s));
             mm = digits_val (take 2 (drop 14 s)); ss = digits_val (take 2 (drop 17 s));
             ms = digits_val (take 3 (drop 20 s));
             days = days_from_civil y m d
         in if civil days = (y, m, d) \<and> hh < 24 \<and> mm < 60 \<and> ss < 60
            then Some (days * day_ms + hh * 3600000 + mm * 60000 + ss * 1000 + ms)
            else None)
      else None)"

fun host_ErrorMessage :: "exn \<Rightarrow> string" where
  "host_ErrorMessage TypeError = ''Cannot read properties''"
| "host_ErrorMessage RangeError = ''Invalid time value''"

definition host :: runtime where
  "host = \<lparr> StringToNumber = host_StringToNumber, NumberToString = host_NumberToString,
            NumberAdd = host_NumberAdd, DateParse = host_DateParse, UTC = (\<lambda>t. t),
            ErrorMessage = host_ErrorMessage \<rparr>"

section \<open>Predicates and inputs of the properties\<close>

text \<open>A row of \<^verbatim>\<open>tasks.json\<close> whose revenue is the string \<^verbatim>\<open>"abc"\<close>.\<close>

definition row_abc :: jsval where
  "row_abc =
     JObj [(''id'', JStr ''t-1''), (''title'', JStr ''A''), (''revenue'', JStr ''abc''),
           (''timeTaken'', JNum (Finite 2)), (''priority'', JStr ''High''),
           (''status'', JStr ''In Progress''),
           (''createdAt'', JStr ''2024-01-01T00:00:00.000Z'')]"

text \<open>A finished row with neither \<^verbatim>\<open>createdAt\<close> nor \<^verbatim>\<open>completedAt\<close>.\<close>

definition row_undated :: jsval where
  "row_undated =
     JObj [(''id'', JStr ''t-1''), (''title'', JStr ''A''), (''revenue'', JNum (Finite 10)),
           (''timeTaken'', JNum (Finite 2)), (''priority'', JStr ''High''),
           (''status'', JStr ''Done'')]"

text \<open>Some record of the collection has the id \<open>i\<close>.\<close>

definition present :: "string \<Rightarrow> state \<Rightarrow> bool" where
  "present i s = list_ex (\<lambda>t. id' t = JStr i) (tasks s)"

text \<open>Arguments of \<^verbatim>\<open>addTask\<close> with the id \<^verbatim>\<open>"a"\<close>; the first has time NaN.\<close>

definition nt_nan :: new_task where
  "nt_nan = \<lparr> new_id = Some ''a'', new_title = JStr ''A'', new_revenue = Finite 10,
              new_timeTaken = NaN, new_priority = JStr ''High'',
              new_status = JStr ''In Progress'', new_notes = JStr [] \<rparr>"

definition nt_a :: new_task where
  "nt_a = \<lparr> new_id = Some ''a'', new_title = JStr ''A'', new_revenue = Finite 10,
            new_timeTaken = Finite 2, new_priority = JStr ''High'',
            new_status = JStr ''In Progress'', new_notes = JStr [] \<rparr>"

definition nt_a' :: new_task where
  "nt_a' = \<lparr> new_id = Some ''a'', new_title = JStr ''B'', new_revenue = Finite 50,
             new_timeTaken = Finite 5, new_priority = JStr ''Low'',
             new_status = JStr ''In Progress'', new_notes = JStr [] \<rparr>"

text \<open>The empty patch \<^verbatim>\<open>{}\<close>.\<close>

definition no_patch :: patch where
  "no_patch = \<lparr> p_id = None, p_title = None, p_revenue = None, p_timeTaken = None,
                p_priority = None, p_status = None, p_notes = None, p_createdAt = None,
                p_completedAt = None \<rparr>"

text \<open>Exactly one record of the collection has the id \<open>i\<close>.\<close>

definition sole :: "string \<Rightarrow> state \<Rightarrow> bool" where
  "sole i s = (length (filter (\<lambda>t. id' t = JStr i) (tasks s)) = 1)"

text \<open>A row in progress that brings its own \<^verbatim>\<open>completedAt\<close>.\<close>

definition row_kept :: jsval where
  "row_kept =
     JObj [(''id'', JStr ''t-2''), (''title'', JStr ''B''), (''revenue'', JNum (Finite 50)),
           (''timeTaken'', JNum (Finite 5)), (''priority'', JStr ''Low''),
           (''status'', JStr ''In Progress''),
           (''createdAt'', JStr ''2024-01-01T00:00:00.000Z''),
           (''completedAt'', JStr ''2024-01-05T08:30:00.000Z'')]"


definition rows3 :: "jsval list" where
  "rows3 = [row_kept, row_undated, row_abc]"

definition out3 :: "task list" where
  "out3 = projr (normalizeTasks host 0 (JArr rows3))"

text \<open>A finished task, and the patches that reopen a task and finish it.\<close>

definition nt_done :: new_task where
  "nt_done = \<lparr> new_id = Some ''a'', new_title = JStr ''A'', new_revenue = Finite 10,
               new_timeTaken = Finite 2, new_priority = JStr ''High'',
               new_status = JStr ''Done'', new_notes = JStr [] \<rparr>"

definition p_done :: patch where
  "p_done = no_patch\<lparr> p_status := Some (JStr ''Done'') \<rparr>"

definition p_reopen :: patch where
  "p_reopen = no_patch\<lparr> p_status := Some (JStr ''In Progress'') \<rparr>"

text \<open>A row in progress whose \<^verbatim>\<open>createdAt\<close> lies in the year 2999.\<close>

definition row_future :: jsval where
  "row_future =
     JObj [(''id'', JStr ''t-9''), (''title'', JStr ''F''), (''revenue'', JNum (Finite 1)),
           (''timeTaken'', JNum (Finite 1)), (''priority'', JStr ''Low''),
           (''status'', JStr ''In Progress''),
           (''createdAt'', JStr ''2999-01-01T00:00:00.000Z'')]"

text \<open>
  The store after a finished task has been added and reopened (in either listing), and
  the store that the row \<open>row_future\<close> is loaded into.
\<close>

definition reopened :: state where
  "reopened = updateTask 10 ''a'' p_reopen (addTask ''u'' 0 nt_done initial)"

definition reopened2 :: state where
  "reopened2 = updateTask2 10 ''a'' p_reopen (addTask ''u'' 0 nt_done initial)"

definition planned :: state where
  "planned = initial\<lparr> tasks := projr (normalizeTasks host 0 (JArr [row_future])), loading := False \<rparr>"

text \<open>
  The calls of \<^verbatim>\<open>load()\<close> whose fetch has not settled, and two measures on a state:
  how many fetches the guard still allows, and how many loads can still run to their end.
\<close>

definition pending :: "load list \<Rightarrow> nat" where
  "pending ls = length (filter (\<lambda>l. l \<noteq> Settled) ls)"

definition fetch_budget :: "state \<Rightarrow> nat" where
  "fetch_budget s = (if fetchedRef s then 0 else 1)"

definition load_budget :: "state \<Rightarrow> nat" where
  "load_budget s = fetch_budget s + pending (loads s)"

text \<open>The same for the loads whose \<^verbatim>\<open>isMounted\<close> is still true.\<close>

definition mounted :: "load list \<Rightarrow> nat" where
  "mounted ls = length (filter (\<lambda>l. l = Pending True) ls)"

definition seed_budget :: "state \<Rightarrow> nat" where
  "seed_budget s = fetch_budget s + mounted (loads s)"

text \<open>Imported functions for the examples; the seed generator returns no task.\<close>

definition md0 :: modules where
  "md0 = \<lparr> computeTotalRevenue = (\<lambda>ts. Finite 0), computeTimeEfficiency = (\<lambda>ts. Finite 0),
     computeRevenuePerHour = (\<lambda>ts. Finite 0),  computeAverageROI = (\<lambda>ts. Finite 0),
     computePerformanceGrade = (\<lambda>n. ''Needs Improvement''), generateSalesTasks = (\<lambda>n. []) \<rparr>"

text \<open>A task with the id \<^verbatim>\<open>"b"\<close>, and the store after tasks a and b have been added.\<close>

definition nt_b :: new_task where
  "nt_b = \<lparr> new_id = Some ''b'', new_title = JStr ''B'', new_revenue = Finite 50,
            new_timeTaken = Finite 5, new_priority = JStr ''Low'',
            new_status = JStr ''In Progress'', new_notes = JStr [] \<rparr>"

definition store_ab :: state where
  "store_ab = render (addTask ''u'' 1 nt_b (addTask ''u'' 0 nt_a initial))"

text \<open>The store after two tasks with the id \<^verbatim>\<open>"a"\<close> have been added.\<close>

definition store_aa :: state where
  "store_aa = render (addTask ''u'' 1 nt_a' (addTask ''u'' 0 nt_a initial))"

text \<open>A value that is neither an Array nor an Object: its conversions never throw.\<close>

fun primitive :: "jsval \<Rightarrow> bool" where
  "primitive (JArr xs) = False"
| "primitive (JObj kv) = False"
| "primitive v = True"

text \<open>
  The \<^verbatim>\<open>completedAt\<close> that the specification gives to a normalized row whose creation
  time is \<open>c\<close>, a supplied value being one that is truthy: the raw value if supplied, else
  \<open>c\<close> plus 24 hours if the status is Done, else undefined.
\<close>

definition spec_completedAt :: "jsval \<Rightarrow> int \<Rightarrow> jsval" where
  "spec_completedAt t c =
     (if truthy (field t ''completedAt'') then field t ''completedAt''
      else if field t ''status'' = Done then JStr (iso_string (c + 24 * 3600 * 1000))
      else JUndefined)"

text \<open>
  Rows on which the callback is sure to return: the row is not null or undefined, the
  values it converts are primitive, its creation date is a valid time, and 24 hours
  later is a valid time too when a Done row has no truthy \<^verbatim>\<open>completedAt\<close>.
\<close>

definition sum_fits :: "jsval \<Rightarrow> int option \<Rightarrow> bool" where
  "sum_fits t d =
     (case d of
        None \<Rightarrow> False
      | Some c \<Rightarrow> truthy (field t ''completedAt'') \<or> field t ''status'' \<noteq> Done \<or>
                 \<bar>c + 24 * 3600 * 1000\<bar> \<le> 8640000000000000)"

definition row_ok :: "runtime \<Rightarrow> int \<Rightarrow> jsval \<Rightarrow> nat \<Rightarrow> bool" where
  "row_ok rt now t idx =
     (\<not> nullish t \<and> primitive (field t ''id'') \<and> primitive (field t ''title'') \<and>
      primitive (field t ''revenue'') \<and> primitive (field t ''timeTaken'') \<and>
      (case created_of rt now t idx of Inl e \<Rightarrow> False | Inr d \<Rightarrow> sum_fits t d))"

definition row_ok2 :: "runtime \<Rightarrow> jsval \<Rightarrow> bool" where
  "row_ok2 rt t =
     (\<not> nullish t \<and> primitive (field t ''revenue'') \<and> primitive (field t ''timeTaken'') \<and>
      (case created_of2 rt t of Inl e \<Rightarrow> False | Inr d \<Rightarrow> sum_fits t d))"

text \<open>A finished row created at the largest time value, 8640000000000000.\<close>

definition row_last_day :: jsval where
  "row_last_day =
     JObj [(''id'', JStr ''t-4''), (''title'', JStr ''D''), (''revenue'', JNum (Finite 1)),
           (''timeTaken'', JNum (Finite 1)), (''priority'', JStr ''Low''),
           (''status'', JStr ''Done''), (''createdAt'', JNum (Finite 8640000000000000))]"

text \<open>A row in progress that supplies the empty string as \<^verbatim>\<open>completedAt\<close>.\<close>

definition row_blank :: jsval where
  "row_blank =
     JObj [(''id'', JStr ''t-5''), (''title'', JStr ''E''), (''revenue'', JNum (Finite 1)),
           (''timeTaken'', JNum (Finite 1)), (''priority'', JStr ''Low''),
           (''status'', JStr ''In Progress''),
           (''createdAt'', JStr ''2024-01-01T00:00:00.000Z''), (''completedAt'', JStr [])]"

definition out3_2 :: "task list" where
  "out3_2 = projr (normalizeTasks2 host (JArr rows3))"

text \<open>
  Event sequences: the effect run twice around a cleanup, as StrictMode does; and a load
  that seeds, an unmount and mount, and the load of the new instance.
\<close>

definition strict_mode :: "event list" where
  "strict_mode = [Effect, Cleanup 0, Effect, Settle 0 0 (Json (JArr [row_abc]))]"

definition two_mounts :: "event list" where
  "two_mounts =
     [Effect, Settle 0 0 (Json (JArr [row_abc])), Remount,
      Effect, Settle 1 0 (Json (JArr [row_abc]))]"

section \<open>Verified properties\<close>

subsection \<open>Metrics of the empty collection\<close>

text \<open>
  Claim C8. On an empty task collection the metrics are the constant
  \<^verbatim>\<open>INITIAL_METRICS\<close>: every number is 0 and the grade is \<^verbatim>\<open>Needs Improvement\<close>.
  The value is returned before any function of \<^verbatim>\<open>@/utils/logic\<close> is called, whatever
  these functions are, so nothing is divided.
\<close>

theorem metrics_empty:
  "metrics rt md [] = INITIAL_METRICS \<and>
   INITIAL_METRICS =
     \<lparr> totalRevenue = Finite 0, totalTimeTaken = Finite 0, timeEfficiencyPct = Finite 0,
       revenuePerHour = Finite 0, averageROI = Finite 0,
       performanceGrade = ''Needs Improvement'' \<rparr>"
  by (simp add: metrics_def INITIAL_METRICS_def)

subsection \<open>Revenue that is not a number\<close>

text \<open>
  \<^verbatim>\<open>Number(x) ?? 0\<close> is \<^verbatim>\<open>Number(x)\<close>: a Number is never null or undefined, NaN
  included, so the fallback is never taken.
\<close>

lemma number_or_zero_same: "number_or_zero n = n"
  by (simp add: number_or_zero_def)

text \<open>
  Claim C2 says that a revenue which is not numeric is stored as 0. Both listings store
  NaN instead: for the row \<open>row_abc\<close>, whose revenue is the string \<^verbatim>\<open>"abc"\<close>, the
  normalized record has revenue NaN.
\<close>

theorem revenue_abc_is_NaN:
  "normalizeTasks host 0 (JArr [row_abc]) =
     Inr [\<lparr> id' = JStr ''t-1'', title = JStr ''A'', revenue = NaN, timeTaken = Finite 2,
            priority = JStr ''High'', status = JStr ''In Progress'', notes' = JStr [],
            createdAt = ''2024-01-01T00:00:00.000Z'', completedAt = JUndefined \<rparr>] \<and>
   normalizeTasks2 host (JArr [row_abc]) =
     Inr [\<lparr> id' = JStr ''t-1'', title = JStr ''A'', revenue = NaN, timeTaken = Finite 2,
            priority = JStr ''High'', status = JStr ''In Progress'', notes' = JUndefined,
            createdAt = ''2024-01-01T00:00:00.000Z'', completedAt = JUndefined \<rparr>]"
  by code_simp

subsection \<open>Normalization and the clock\<close>

text \<open>
  Claim C1 says that normalizing the same input twice gives the same output. The first
  listing reads \<^verbatim>\<open>Date.now()\<close> for a row without \<^verbatim>\<open>createdAt\<close>: the row
  \<open>row_undated\<close> normalized at clock time 0 and again one day later gets two different
  \<^verbatim>\<open>createdAt\<close> and \<^verbatim>\<open>completedAt\<close>. (The second listing takes no clock: there the
  fallback comes from the digits of the id.)
\<close>

theorem normalizeTasks_reads_clock:
  "normalizeTasks host 0 (JArr [row_undated]) =
     Inr [\<lparr> id' = JStr ''t-1'', title = JStr ''A'', revenue = Finite 10, timeTaken = Finite 2,
            priority = JStr ''High'', status = JStr ''Done'', notes' = JStr [],
            createdAt = ''1969-12-31T00:00:00.000Z'',
            completedAt = JStr ''1970-01-01T00:00:00.000Z'' \<rparr>] \<and>
   normalizeTasks host 86400000 (JArr [row_undated]) =
     Inr [\<lparr> id' = JStr ''t-1'', title = JStr ''A'', revenue = Finite 10, timeTaken = Finite 2,
            priority = JStr ''High'', status = JStr ''Done'', notes' = JStr [],
            createdAt = ''1970-01-01T00:00:00.000Z'',
            completedAt = JStr ''1970-01-02T00:00:00.000Z'' \<rparr>] \<and>
   normalizeTasks host 0 (JArr [row_undated]) \<noteq>
     normalizeTasks host 86400000 (JArr [row_undated])"
  by code_simp

subsection \<open>The invariant on timeTaken\<close>

text \<open>The normalizer of either listing keeps \<^verbatim>\<open>timeTaken > 0\<close>, NaN included.\<close>

lemma normalizeTask_timeTaken: "normalizeTask rt now t idx = Inr r \<Longrightarrow> gt0 (timeTaken r)"
  by (auto simp: normalizeTask_def and_then_def split: if_splits sum.splits)

lemma normalizeTask2_timeTaken: "normalizeTask2 rt t = Inr r \<Longrightarrow> gt0 (timeTaken r)"
  by (auto simp: normalizeTask2_def and_then_def split: if_splits sum.splits)

text \<open>
  Claim C3 says that \<^verbatim>\<open>timeTaken > 0\<close> holds in every reachable store. The test
  \<^verbatim>\<open><= 0\<close> of \<^verbatim>\<open>addTask\<close> and \<^verbatim>\<open>updateTask\<close> is false on NaN, so a NaN is stored:
  by \<^verbatim>\<open>addTask\<close> on the empty store, and by \<^verbatim>\<open>updateTask\<close> on a store with one
  task. In the second listing the clamp looks for the old id after the merge, so a patch
  that changes the id stores a time of -5 as it is.
\<close>

theorem timeTaken_not_positive:
  "map timeTaken (tasks (addTask ''u'' 0 nt_nan initial)) = [NaN] \<and>
   map timeTaken
     (tasks (updateTask 0 ''a'' (no_patch\<lparr> p_timeTaken := Some NaN \<rparr>)
               (addTask ''u'' 0 nt_a initial))) = [NaN] \<and>
   map timeTaken
     (tasks (updateTask2 0 ''a''
               (no_patch\<lparr> p_id := Some (JStr ''b''), p_timeTaken := Some (Finite (-5)) \<rparr>)
               (addTask ''u'' 0 nt_a initial))) = [Finite (-5)] \<and>
   \<not> gt0 NaN \<and> \<not> gt0 (Finite (-5))"
  by code_simp

subsection \<open>Operations on an id that is not in the collection\<close>

lemma absent_filter:
  "\<not> present i s \<Longrightarrow> filter (\<lambda>t. id' t \<noteq> JStr i) (tasks s) = tasks s"
  by (auto simp: present_def list_ex_iff filter_id_conv)

lemma absent_find: "\<not> present i s \<Longrightarrow> find (\<lambda>t. id' t = JStr i) (tasks s) = None"
  by (auto simp: present_def list_ex_iff find_None_iff)

lemma absent_map:
  "\<not> present i s \<Longrightarrow> map (\<lambda>t. if id' t \<noteq> JStr i then t else f t) (tasks s) = tasks s"
  by (rule map_idI) (auto simp: present_def list_ex_iff)

lemma absent_map2:
  "\<not> present i s \<Longrightarrow>
   map (\<lambda>t. if id' t = JStr i \<and> c t then f t else t) (tasks s) = tasks s"
  by (rule map_idI) (auto simp: present_def list_ex_iff)

text \<open>
  Claim C4 says that \<^verbatim>\<open>deleteTask\<close> on an unknown id leaves the last-deleted slot
  unchanged. It does not: after a task has been added and deleted the slot is full, and
  deleting the unknown id \<^verbatim>\<open>"zzz"\<close> then empties it.
\<close>

theorem deleteTask_unknown_id_clears_slot:
  "\<not> present ''zzz'' (deleteTask ''a'' (addTask ''u'' 0 nt_a initial)) \<and>
   lastDeleted (deleteTask ''a'' (addTask ''u'' 0 nt_a initial)) \<noteq> None \<and>
   lastDeleted (deleteTask ''zzz'' (deleteTask ''a'' (addTask ''u'' 0 nt_a initial))) = None"
  by code_simp

text \<open>
  Claim C4, amended. For an id that no record of the collection has, \<^verbatim>\<open>updateTask\<close>
  (either listing) leaves the whole state unchanged, and \<^verbatim>\<open>deleteTask\<close> leaves the
  collection unchanged and sets the last-deleted slot to null. For any id \<open>j\<close>,
  \<^verbatim>\<open>deleteTask\<close> leaves a record in the slot exactly when the collection has one with
  that id. No operation raises an error.
\<close>

theorem unknown_id:
  assumes "\<not> present i s"
  shows "updateTask now i p s = s \<and> updateTask2 now i p s = s \<and>
         deleteTask i s = s\<lparr> lastDeleted := None \<rparr> \<and>
         (lastDeleted (deleteTask j s) \<noteq> None) = present j s"
proof -
  have "updateTask now i p s = s"
    using assms by (simp add: updateTask_def absent_map)
  moreover have "updateTask2 now i p s = s"
    using assms by (simp add: updateTask2_def absent_map absent_map2)
  moreover have "deleteTask i s = s\<lparr> lastDeleted := None \<rparr>"
    using assms by (simp add: deleteTask_def absent_filter absent_find)
  moreover have "(lastDeleted (deleteTask j s) \<noteq> None) = present j s"
    by (auto simp: deleteTask_def present_def list_ex_iff find_None_iff)
  ultimately show ?thesis by blast
qed

theorem unknown_id_witness:
  "\<not> present ''zzz'' (addTask ''u'' 0 nt_a initial) \<and>
   updateTask 5 ''zzz'' (no_patch\<lparr> p_title := Some (JStr ''B'') \<rparr>)
       (addTask ''u'' 0 nt_a initial) = addTask ''u'' 0 nt_a initial \<and>
   deleteTask ''zzz'' (addTask ''u'' 0 nt_a initial) =
     (addTask ''u'' 0 nt_a initial)\<lparr> lastDeleted := None \<rparr>"
proof -
  have h: "\<not> present ''zzz'' (addTask ''u'' 0 nt_a initial)"
    by code_simp
  show ?thesis
    using h unknown_id [OF h, of 5 "no_patch\<lparr> p_title := Some (JStr ''B'') \<rparr>"] by simp
qed

subsection \<open>The rows of the normalizer\<close>

text \<open>
  \<^verbatim>\<open>map\<close> returns one record per row, in the order of the rows, when no row throws, and
  it returns nothing when one does.
\<close>

lemma map_rows_Inr:
  "map_rows f k xs = Inr out \<Longrightarrow>
   length out = length xs \<and> (\<forall>i<length xs. f (xs ! i) (k + i) = Inr (out ! i))"
proof (induction xs arbitrary: k out)
  case Nil
  then show ?case by simp
next
  case (Cons x xs)
  from Cons.prems obtain r rs where r: "f x k = Inr r" and rs: "map_rows f (Suc k) xs = Inr rs"
    and out: "out = r # rs"
    by (auto split: sum.splits)
  from Cons.IH [OF rs] have len: "length rs = length xs"
    and nth: "\<forall>i<length xs. f (xs ! i) (Suc k + i) = Inr (rs ! i)" by auto
  show ?case
  proof (intro conjI allI impI)
    show "length out = length (x # xs)" using out len by simp
  next
    fix i assume "i < length (x # xs)"
    then show "f ((x # xs) ! i) (k + i) = Inr (out ! i)"
      using r nth out by (cases i) auto
  qed
qed

lemma map_rows_succeeded:
  "succeeded (map_rows f k xs) = (\<forall>i<length xs. succeeded (f (xs ! i) (k + i)))"
proof (induction xs arbitrary: k)
  case Nil
  then show ?case by simp
next
  case (Cons x xs)
  have "succeeded (map_rows f k (x # xs)) =
        (succeeded (f x k) \<and> succeeded (map_rows f (Suc k) xs))"
    by (auto split: sum.splits)
  also have "\<dots> = (succeeded (f x k) \<and> (\<forall>i<length xs. succeeded (f (xs ! i) (Suc k + i))))"
    using Cons.IH by simp
  also have "\<dots> = (\<forall>i<length (x # xs). succeeded (f ((x # xs) ! i) (k + i)))"
    by (auto simp: less_Suc_eq_0_disj)
  finally show ?case .
qed

lemma succeeded_iff: "succeeded m = (\<exists>x. m = Inr x)"
  by (cases m) auto




subsection \<open>Delete, then undo\<close>

lemma find_as_filter: "find P xs = (case filter P xs of [] \<Rightarrow> None | x # ys \<Rightarrow> Some x)"
  by (induction xs) auto

lemma present_filter: "present i s \<Longrightarrow> filter (\<lambda>t. id' t = JStr i) (tasks s) \<noteq> []"
  by (auto simp: present_def list_ex_iff filter_empty_conv)

lemma present_find:
  "present i s \<Longrightarrow>
   find (\<lambda>t. id' t = JStr i) (tasks s) = Some (hd (filter (\<lambda>t. id' t = JStr i) (tasks s)))"
  using present_filter [of i s] by (simp add: find_as_filter split: list.splits)

lemma sole_present: "sole i s \<Longrightarrow> present i s"
  by (auto simp: sole_def present_def list_ex_iff length_Suc_conv filter_eq_Cons_iff)

lemma delete_render_undo:
  "present i s \<Longrightarrow>
   tasks (undoDelete (render (deleteTask i s))) =
     filter (\<lambda>t. id' t \<noteq> JStr i) (tasks s) @ [hd (filter (\<lambda>t. id' t = JStr i) (tasks s))] \<and>
   lastDeleted (undoDelete (render (deleteTask i s))) = None"
  by (simp add: undoDelete_def render_def deleteTask_def present_find)

lemma undo_after_undo:
  "undoDelete (render (undoDelete (render (deleteTask i s)))) =
   render (undoDelete (render (deleteTask i s)))"
  by (simp add: undoDelete_def render_def deleteTask_def split: option.splits)

text \<open>
  Claim C5 says that \<^verbatim>\<open>deleteTask(id)\<close> followed immediately by \<^verbatim>\<open>undoDelete()\<close>
  restores the members of every collection. Two things stand against it. \<^verbatim>\<open>addTask\<close>
  accepts an id that is already in use, and \<^verbatim>\<open>deleteTask\<close> removes every record with
  the id but keeps only the first: in the store with two tasks of id \<^verbatim>\<open>"a"\<close>, delete,
  render and undo bring back one of them. And \<^verbatim>\<open>undoDelete\<close> sees the slot of the
  last render: called right after \<^verbatim>\<open>deleteTask\<close>, before React has rendered, it finds
  the slot empty and restores nothing.
\<close>

theorem delete_undo_not_restored:
  "present ''a'' store_aa \<and>
   set (tasks (undoDelete (render (deleteTask ''a'' store_aa)))) \<noteq> set (tasks store_aa) \<and>
   present ''a'' store_ab \<and>
   set (tasks (undoDelete (deleteTask ''a'' store_ab))) \<noteq> set (tasks store_ab)"
  by code_simp

text \<open>
  Claim C5, amended. When a record of the collection has the id, \<^verbatim>\<open>deleteTask(id)\<close>,
  the render that follows and \<^verbatim>\<open>undoDelete()\<close> give the collection without the records
  of that id, followed by the first of them appended at the end, and an empty
  last-deleted slot: when exactly one record has the id, the collection has the same
  members as before, each as often as before; when several records share the id, all
  are removed and only the first comes back. A second \<^verbatim>\<open>undoDelete()\<close> after the next
  render leaves the collection and the slot unchanged. \<^verbatim>\<open>undoDelete\<close> acts on the
  last-deleted value of the last render: called in the same event as the delete, with
  the slot empty at the last render, it restores nothing, and called twice from one
  render it appends the record twice.
\<close>

theorem delete_then_undo:
  "(present i s \<longrightarrow>
      tasks (undoDelete (render (deleteTask i s))) =
        filter (\<lambda>t. id' t \<noteq> JStr i) (tasks s) @
        [hd (filter (\<lambda>t. id' t = JStr i) (tasks s))] \<and>
      lastDeleted (undoDelete (render (deleteTask i s))) = None) \<and>
   (sole i s \<longrightarrow>
      mset (tasks (undoDelete (render (deleteTask i s)))) = mset (tasks s) \<and>
      set (tasks (undoDelete (render (deleteTask i s)))) = set (tasks s)) \<and>
   undoDelete (render (undoDelete (render (deleteTask i s)))) =
     render (undoDelete (render (deleteTask i s))) \<and>
   (captured s = None \<longrightarrow> undoDelete (deleteTask i s) = deleteTask i s) \<and>
   (captured s = Some t \<longrightarrow> tasks (undoDelete (undoDelete s)) = tasks s @ [t, t])"
proof -
  have a: "present i s \<longrightarrow>
      tasks (undoDelete (render (deleteTask i s))) =
        filter (\<lambda>t. id' t \<noteq> JStr i) (tasks s) @
        [hd (filter (\<lambda>t. id' t = JStr i) (tasks s))] \<and>
      lastDeleted (undoDelete (render (deleteTask i s))) = None"
    using delete_render_undo by blast
  have b: "sole i s \<longrightarrow>
      mset (tasks (undoDelete (render (deleteTask i s)))) = mset (tasks s) \<and>
      set (tasks (undoDelete (render (deleteTask i s)))) = set (tasks s)"
  proof
    assume sole: "sole i s"
    then obtain t where t: "filter (\<lambda>t. id' t = JStr i) (tasks s) = [t]"
      by (auto simp: sole_def length_Suc_conv)
    have after: "tasks (undoDelete (render (deleteTask i s))) =
                 filter (\<lambda>t. id' t \<noteq> JStr i) (tasks s) @ [t]"
      using delete_render_undo [OF sole_present [OF sole]] t by simp
    have "mset (tasks s) =
          mset (filter (\<lambda>t. id' t = JStr i) (tasks s)) +
          mset (filter (\<lambda>t. \<not> id' t = JStr i) (tasks s))"
      by simp
    then have m: "mset (tasks (undoDelete (render (deleteTask i s)))) = mset (tasks s)"
      using t after by simp
    then have "set (tasks (undoDelete (render (deleteTask i s)))) = set (tasks s)"
      by (rule mset_eq_setD)
    with m show "mset (tasks (undoDelete (render (deleteTask i s)))) = mset (tasks s) \<and>
                 set (tasks (undoDelete (render (deleteTask i s)))) = set (tasks s)"
      by blast
  qed
  have d: "captured s = None \<longrightarrow> undoDelete (deleteTask i s) = deleteTask i s"
    by (simp add: undoDelete_def deleteTask_def)
  have e: "captured s = Some t \<longrightarrow> tasks (undoDelete (undoDelete s)) = tasks s @ [t, t]"
    by (simp add: undoDelete_def)
  from a b undo_after_undo [of i s] d e show ?thesis
    by blast
qed

theorem delete_then_undo_witness:
  "sole ''a'' store_ab \<and> present ''a'' store_ab \<and>
   map id' (tasks store_ab) = [JStr ''a'', JStr ''b''] \<and>
   map id' (tasks (undoDelete (render (deleteTask ''a'' store_ab)))) = [JStr ''b'', JStr ''a''] \<and>
   set (tasks (undoDelete (render (deleteTask ''a'' store_ab)))) = set (tasks store_ab) \<and>
   lastDeleted (undoDelete (render (deleteTask ''a'' store_ab))) = None \<and>
   captured store_ab = None \<and>
   undoDelete (deleteTask ''a'' store_ab) = deleteTask ''a'' store_ab \<and>
   captured (render (deleteTask ''a'' store_ab)) = lastDeleted (deleteTask ''a'' store_ab) \<and>
   length (tasks (undoDelete (undoDelete (render (deleteTask ''a'' store_ab))))) = 3"
proof -
  have h: "sole ''a'' store_ab" "present ''a'' store_ab" "captured store_ab = None"
    by code_simp+
  have ids: "map id' (tasks store_ab) = [JStr ''a'', JStr ''b'']"
    "map id' (filter (\<lambda>t. id' t \<noteq> JStr ''a'') (tasks store_ab) @
              [hd (filter (\<lambda>t. id' t = JStr ''a'') (tasks store_ab))]) = [JStr ''b'', JStr ''a'']"
    by code_simp+
  obtain t where c: "captured (render (deleteTask ''a'' store_ab)) = Some t"
    using present_find [OF h(2)] by (simp add: render_def deleteTask_def)
  have len: "length (tasks (render (deleteTask ''a'' store_ab))) = 1"
    by code_simp
  note T = delete_then_undo [of "''a''" store_ab]
  note T2 = delete_then_undo [of "''a''" "render (deleteTask ''a'' store_ab)" t]
  from T h(2) have a: "tasks (undoDelete (render (deleteTask ''a'' store_ab))) =
        filter (\<lambda>t. id' t \<noteq> JStr ''a'') (tasks store_ab) @
        [hd (filter (\<lambda>t. id' t = JStr ''a'') (tasks store_ab))]"
    and l: "lastDeleted (undoDelete (render (deleteTask ''a'' store_ab))) = None"
    by blast+
  from T h(1) have b: "set (tasks (undoDelete (render (deleteTask ''a'' store_ab)))) =
                       set (tasks store_ab)"
    by blast
  from T h(3) have d: "undoDelete (deleteTask ''a'' store_ab) = deleteTask ''a'' store_ab"
    by blast
  from T2 c have "tasks (undoDelete (undoDelete (render (deleteTask ''a'' store_ab)))) =
                  tasks (render (deleteTask ''a'' store_ab)) @ [t, t]"
    by blast
  then have e: "length (tasks (undoDelete (undoDelete (render (deleteTask ''a'' store_ab))))) = 3"
    using len by simp
  have r: "captured (render (deleteTask ''a'' store_ab)) = lastDeleted (deleteTask ''a'' store_ab)"
    by (simp add: render_def)
  from h ids(1) a ids(2) b l d r e show ?thesis
    by simp
qed

subsection \<open>The completion time set by the normalizer\<close>

lemma toISOString_Inr: "toISOString d = Inr s \<Longrightarrow> \<exists>c. d = Some c \<and> s = iso_string c"
  by (auto simp: toISOString_def split: option.splits)

lemma newDateMs_eq:
  "newDateMs ms = (if \<bar>ms\<bar> \<le> 8640000000000000 then Some ms else None)"
  by (simp add: newDateMs_def trunc_def)

lemma primitive_ToString: "primitive v \<Longrightarrow> \<exists>s. ToString rt v = Inr s"
  by (cases v) simp_all

lemma primitive_ToNumber: "primitive v \<Longrightarrow> \<exists>n. ToNumber rt v = Inr n"
  by (cases v) simp_all

text \<open>What \<^verbatim>\<open>completed\<close> is, for a creation time \<open>c\<close> and for an Invalid Date.\<close>

lemma completed_of_Some:
  "completed_of t (Some c) =
     (if \<not> truthy (field t ''completedAt'') \<and> field t ''status'' = Done \<and>
         \<bar>c + 24 * 3600 * 1000\<bar> > 8640000000000000
      then Inl RangeError else Inr (spec_completedAt t c))"
  by (simp add: completed_of_def spec_completedAt_def and_then_def toISOString_def
        newDateMs_eq day_ms_def)

lemma completed_of_None:
  "completed_of t None =
     (if truthy (field t ''completedAt'') then Inr (field t ''completedAt'')
      else if field t ''status'' = Done then Inl RangeError else Inr JUndefined)"
  by (simp add: completed_of_def and_then_def toISOString_def)

lemma normalizeTask_returned:
  "normalizeTask rt now t idx = Inr r \<Longrightarrow>
   \<exists>c. createdAt r = iso_string c \<and> completedAt r = spec_completedAt t c"
  by (auto simp: normalizeTask_def and_then_def completed_of_Some
           split: if_splits sum.splits dest!: toISOString_Inr)

lemma normalizeTask2_returned:
  "normalizeTask2 rt t = Inr r \<Longrightarrow>
   \<exists>c. createdAt r = iso_string c \<and> completedAt r = spec_completedAt t c"
  by (auto simp: normalizeTask2_def and_then_def completed_of_Some
           split: if_splits sum.splits dest!: toISOString_Inr)

lemma normalizeTask_returns:
  assumes "\<not> nullish t" "created_of rt now t idx = Inr (Some c)"
    "primitive (field t ''id'')" "primitive (field t ''title'')"
    "primitive (field t ''revenue'')" "primitive (field t ''timeTaken'')"
    "truthy (field t ''completedAt'') \<or> field t ''status'' \<noteq> Done \<or>
     \<bar>c + 24 * 3600 * 1000\<bar> \<le> 8640000000000000"
  shows "\<exists>r. normalizeTask rt now t idx = Inr r \<and> createdAt r = iso_string c \<and>
             completedAt r = spec_completedAt t c"
proof -
  obtain i ti rev tt where conv: "ToString rt (field t ''id'') = Inr i"
    "ToString rt (field t ''title'') = Inr ti"
    "ToNumber rt (field t ''revenue'') = Inr rev"
    "ToNumber rt (field t ''timeTaken'') = Inr tt"
    using assms(3-6) primitive_ToString primitive_ToNumber by metis
  have "completed_of t (Some c) = Inr (spec_completedAt t c)"
    using assms(7) by (auto simp: completed_of_Some)
  then show ?thesis
    using assms(1,2) conv by (simp add: normalizeTask_def and_then_def toISOString_def)
qed

lemma normalizeTask2_returns:
  assumes "\<not> nullish t" "created_of2 rt t = Inr (Some c)"
    "primitive (field t ''revenue'')" "primitive (field t ''timeTaken'')"
    "truthy (field t ''completedAt'') \<or> field t ''status'' \<noteq> Done \<or>
     \<bar>c + 24 * 3600 * 1000\<bar> \<le> 8640000000000000"
  shows "\<exists>r. normalizeTask2 rt t = Inr r \<and> createdAt r = iso_string c \<and>
             completedAt r = spec_completedAt t c"
proof -
  obtain rev tt where conv: "ToNumber rt (field t ''revenue'') = Inr rev"
    "ToNumber rt (field t ''timeTaken'') = Inr tt"
    using assms(3,4) primitive_ToNumber by metis
  have "completed_of t (Some c) = Inr (spec_completedAt t c)"
    using assms(5) by (auto simp: completed_of_Some)
  then show ?thesis
    using assms(1,2) conv by (simp add: normalizeTask2_def and_then_def toISOString_def)
qed

lemma normalizeTask_throws:
  assumes "\<not> nullish t" "created_of rt now t idx = Inr d"
    "\<not> truthy (field t ''completedAt'')" "field t ''status'' = Done"
    "d = None \<or> (\<exists>c. d = Some c \<and> \<bar>c + 24 * 3600 * 1000\<bar> > 8640000000000000)"
  shows "normalizeTask rt now t idx = Inl RangeError"
  using assms
  by (auto simp: normalizeTask_def and_then_def completed_of_Some completed_of_None)

lemma normalizeTask2_throws:
  assumes "\<not> nullish t" "created_of2 rt t = Inr d"
    "\<not> truthy (field t ''completedAt'')" "field t ''status'' = Done"
    "d = None \<or> (\<exists>c. d = Some c \<and> \<bar>c + 24 * 3600 * 1000\<bar> > 8640000000000000)"
  shows "normalizeTask2 rt t = Inl RangeError"
  using assms
  by (auto simp: normalizeTask2_def and_then_def completed_of_Some completed_of_None)

lemma row_ok_returns: "row_ok rt now t idx \<Longrightarrow> succeeded (normalizeTask rt now t idx)"
proof -
  assume ok: "row_ok rt now t idx"
  then obtain c where "created_of rt now t idx = Inr (Some c)"
    "truthy (field t ''completedAt'') \<or> field t ''status'' \<noteq> Done \<or>
     \<bar>c + 24 * 3600 * 1000\<bar> \<le> 8640000000000000"
    by (auto simp: row_ok_def sum_fits_def split: sum.splits option.splits)
  with ok obtain r where "normalizeTask rt now t idx = Inr r"
    using normalizeTask_returns [of t rt now idx c] by (auto simp: row_ok_def)
  then show ?thesis by simp
qed

lemma row_ok2_returns: "row_ok2 rt t \<Longrightarrow> succeeded (normalizeTask2 rt t)"
proof -
  assume ok: "row_ok2 rt t"
  then obtain c where "created_of2 rt t = Inr (Some c)"
    "truthy (field t ''completedAt'') \<or> field t ''status'' \<noteq> Done \<or>
     \<bar>c + 24 * 3600 * 1000\<bar> \<le> 8640000000000000"
    by (auto simp: row_ok2_def sum_fits_def split: sum.splits option.splits)
  with ok obtain r where "normalizeTask2 rt t = Inr r"
    using normalizeTask2_returns [of t rt c] by (auto simp: row_ok2_def)
  then show ?thesis by simp
qed

lemma rows_ok_return:
  "(\<forall>j<length xs. row_ok rt now (xs ! j) j) \<Longrightarrow> \<exists>out. normalizeTasks rt now (JArr xs) = Inr out"
  using map_rows_succeeded [of "normalizeTask rt now" 0 xs] row_ok_returns
  by (auto simp: normalizeTasks_def succeeded_iff)

lemma rows_ok2_return:
  "(\<forall>j<length xs. row_ok2 rt (xs ! j)) \<Longrightarrow> \<exists>out. normalizeTasks2 rt (JArr xs) = Inr out"
  using map_rows_succeeded [of "\<lambda>t idx. normalizeTask2 rt t" 0 xs] row_ok2_returns
  by (auto simp: normalizeTasks2_def succeeded_iff)

text \<open>
  Claim C6 says, for every raw record, that a supplied \<^verbatim>\<open>completedAt\<close> is kept and that
  a Done record without one gets \<^verbatim>\<open>createdAt\<close> plus 24 hours. A finished row created
  at the largest time value has no valid time 24 hours later: \<^verbatim>\<open>toISOString\<close> throws a
  RangeError and the call returns nothing. And a row that supplies the empty string as
  \<^verbatim>\<open>completedAt\<close> does not keep it: the test \<^verbatim>\<open>t.completedAt ||\<close> takes it for
  absent and the record gets undefined.
\<close>

theorem completedAt_not_set:
  "normalizeTasks host 0 (JArr [row_last_day]) = Inl RangeError \<and>
   normalizeTasks2 host (JArr [row_last_day]) = Inl RangeError \<and>
   field row_blank ''completedAt'' = JStr [] \<and>
   normalizeTasks host 0 (JArr [row_blank]) =
     Inr [\<lparr> id' = JStr ''t-5'', title = JStr ''E'', revenue = Finite 1, timeTaken = Finite 1,
            priority = JStr ''Low'', status = JStr ''In Progress'', notes' = JStr [],
            createdAt = ''2024-01-01T00:00:00.000Z'', completedAt = JUndefined \<rparr>] \<and>
   normalizeTasks2 host (JArr [row_blank]) =
     Inr [\<lparr> id' = JStr ''t-5'', title = JStr ''E'', revenue = Finite 1, timeTaken = Finite 1,
            priority = JStr ''Low'', status = JStr ''In Progress'', notes' = JUndefined,
            createdAt = ''2024-01-01T00:00:00.000Z'', completedAt = JUndefined \<rparr>]"
  by code_simp

text \<open>
  Claim C6, amended. In both listings, for every row of an input on which
  \<^verbatim>\<open>normalizeTasks\<close> returns, the \<^verbatim>\<open>completedAt\<close> of the output is: the raw value if it
  is truthy; otherwise (absent, null, empty string, 0, false), if the status is Done, the
  \<^verbatim>\<open>createdAt\<close> of the output plus exactly 24 hours; otherwise undefined. The callback
  does return such a record for a row that is not null or undefined, whose creation date
  is a valid time \<open>c\<close>, whose converted fields (\<^verbatim>\<open>id\<close>, \<^verbatim>\<open>title\<close>, \<^verbatim>\<open>revenue\<close>,
  \<^verbatim>\<open>timeTaken\<close>; in the second listing the last two) are primitive values, and for which
  \<open>c\<close> plus 24 hours is a valid time when that sum is needed; and \<^verbatim>\<open>normalizeTasks\<close>
  returns on an array all of whose rows are such. When the sum is needed (no truthy
  \<^verbatim>\<open>completedAt\<close>, status Done) and the creation date is invalid or its sum with
  24 hours is not a valid time, the callback throws a RangeError.
\<close>

theorem completedAt_rule:
  "(normalizeTasks rt now (JArr xs) = Inr out \<and> i < length xs \<longrightarrow>
      (\<exists>c. createdAt (out ! i) = iso_string c \<and>
           completedAt (out ! i) = spec_completedAt (xs ! i) c)) \<and>
   (normalizeTasks2 rt (JArr xs) = Inr out2 \<and> i < length xs \<longrightarrow>
      (\<exists>c. createdAt (out2 ! i) = iso_string c \<and>
           completedAt (out2 ! i) = spec_completedAt (xs ! i) c)) \<and>
   ((\<forall>j<length xs. row_ok rt now (xs ! j) j) \<longrightarrow>
      (\<exists>out. normalizeTasks rt now (JArr xs) = Inr out)) \<and>
   ((\<forall>j<length xs. row_ok2 rt (xs ! j)) \<longrightarrow>
      (\<exists>out. normalizeTasks2 rt (JArr xs) = Inr out)) \<and>
   (\<not> nullish t \<and> created_of rt now t idx = Inr (Some c) \<and>
    primitive (field t ''id'') \<and> primitive (field t ''title'') \<and>
    primitive (field t ''revenue'') \<and> primitive (field t ''timeTaken'') \<and>
    (truthy (field t ''completedAt'') \<or> field t ''status'' \<noteq> Done \<or>
     \<bar>c + 24 * 3600 * 1000\<bar> \<le> 8640000000000000) \<longrightarrow>
      (\<exists>r. normalizeTask rt now t idx = Inr r \<and> createdAt r = iso_string c \<and>
           completedAt r = spec_completedAt t c)) \<and>
   (\<not> nullish t \<and> created_of2 rt t = Inr (Some c) \<and>
    primitive (field t ''revenue'') \<and> primitive (field t ''timeTaken'') \<and>
    (truthy (field t ''completedAt'') \<or> field t ''status'' \<noteq> Done \<or>
     \<bar>c + 24 * 3600 * 1000\<bar> \<le> 8640000000000000) \<longrightarrow>
      (\<exists>r. normalizeTask2 rt t = Inr r \<and> createdAt r = iso_string c \<and>
           completedAt r = spec_completedAt t c)) \<and>
   (\<not> nullish t \<and> created_of rt now t idx = Inr d \<and>
    \<not> truthy (field t ''completedAt'') \<and> field t ''status'' = Done \<and>
    (d = None \<or> (\<exists>c. d = Some c \<and> \<bar>c + 24 * 3600 * 1000\<bar> > 8640000000000000)) \<longrightarrow>
      normalizeTask rt now t idx = Inl RangeError) \<and>
   (\<not> nullish t \<and> created_of2 rt t = Inr d \<and>
    \<not> truthy (field t ''completedAt'') \<and> field t ''status'' = Done \<and>
    (d = None \<or> (\<exists>c. d = Some c \<and> \<bar>c + 24 * 3600 * 1000\<bar> > 8640000000000000)) \<longrightarrow>
      normalizeTask2 rt t = Inl RangeError)"
proof (intro conjI impI)
  assume "normalizeTasks rt now (JArr xs) = Inr out \<and> i < length xs"
  then have "normalizeTask rt now (xs ! i) i = Inr (out ! i)"
    using map_rows_Inr [of "normalizeTask rt now" 0 xs out] by (simp add: normalizeTasks_def)
  then show "\<exists>c. createdAt (out ! i) = iso_string c \<and>
                 completedAt (out ! i) = spec_completedAt (xs ! i) c"
    by (rule normalizeTask_returned)
next
  assume "normalizeTasks2 rt (JArr xs) = Inr out2 \<and> i < length xs"
  then have "normalizeTask2 rt (xs ! i) = Inr (out2 ! i)"
    using map_rows_Inr [of "\<lambda>t idx. normalizeTask2 rt t" 0 xs out2]
    by (simp add: normalizeTasks2_def)
  then show "\<exists>c. createdAt (out2 ! i) = iso_string c \<and>
                 completedAt (out2 ! i) = spec_completedAt (xs ! i) c"
    by (rule normalizeTask2_returned)
next
  assume "\<forall>j<length xs. row_ok rt now (xs ! j) j"
  then show "\<exists>out. normalizeTasks rt now (JArr xs) = Inr out"
    by (rule rows_ok_return)
next
  assume "\<forall>j<length xs. row_ok2 rt (xs ! j)"
  then show "\<exists>out. normalizeTasks2 rt (JArr xs) = Inr out"
    by (rule rows_ok2_return)
next
  assume "\<not> nullish t \<and> created_of rt now t idx = Inr (Some c) \<and>
    primitive (field t ''id'') \<and> primitive (field t ''title'') \<and>
    primitive (field t ''revenue'') \<and> primitive (field t ''timeTaken'') \<and>
    (truthy (field t ''completedAt'') \<or> field t ''status'' \<noteq> Done \<or>
     \<bar>c + 24 * 3600 * 1000\<bar> \<le> 8640000000000000)"
  then show "\<exists>r. normalizeTask rt now t idx = Inr r \<and> createdAt r = iso_string c \<and>
                 completedAt r = spec_completedAt t c"
    using normalizeTask_returns [of t rt now idx c] by blast
next
  assume "\<not> nullish t \<and> created_of2 rt t = Inr (Some c) \<and>
    primitive (field t ''revenue'') \<and> primitive (field t ''timeTaken'') \<and>
    (truthy (field t ''completedAt'') \<or> field t ''status'' \<noteq> Done \<or>
     \<bar>c + 24 * 3600 * 1000\<bar> \<le> 8640000000000000)"
  then show "\<exists>r. normalizeTask2 rt t = Inr r \<and> createdAt r = iso_string c \<and>
                 completedAt r = spec_completedAt t c"
    using normalizeTask2_returns [of t rt c] by blast
next
  assume "\<not> nullish t \<and> created_of rt now t idx = Inr d \<and>
    \<not> truthy (field t ''completedAt'') \<and> field t ''status'' = Done \<and>
    (d = None \<or> (\<exists>c. d = Some c \<and> \<bar>c + 24 * 3600 * 1000\<bar> > 8640000000000000))"
  then show "normalizeTask rt now t idx = Inl RangeError"
    using normalizeTask_throws [of t rt now idx d] by blast
next
  assume "\<not> nullish t \<and> created_of2 rt t = Inr d \<and>
    \<not> truthy (field t ''completedAt'') \<and> field t ''status'' = Done \<and>
    (d = None \<or> (\<exists>c. d = Some c \<and> \<bar>c + 24 * 3600 * 1000\<bar> > 8640000000000000))"
  then show "normalizeTask2 rt t = Inl RangeError"
    using normalizeTask2_throws [of t rt d] by blast
qed

theorem completedAt_rule_witness:
  "normalizeTasks host 0 (JArr rows3) = Inr out3 \<and>
   normalizeTasks2 host (JArr rows3) = Inr out3_2 \<and>
   row_ok host 0 (rows3 ! 0) 0 \<and> row_ok host 0 (rows3 ! 1) 1 \<and> row_ok host 0 (rows3 ! 2) 2 \<and>
   row_ok2 host (rows3 ! 0) \<and> row_ok2 host (rows3 ! 1) \<and> row_ok2 host (rows3 ! 2) \<and>
   (\<exists>out. normalizeTasks host 0 (JArr rows3) = Inr out) \<and>
   (\<exists>out. normalizeTasks2 host (JArr rows3) = Inr out) \<and>
   (\<exists>c. createdAt (out3 ! 1) = iso_string c \<and>
        completedAt (out3 ! 1) = spec_completedAt (rows3 ! 1) c) \<and>
   (\<exists>c. createdAt (out3_2 ! 1) = iso_string c \<and>
        completedAt (out3_2 ! 1) = spec_completedAt (rows3 ! 1) c) \<and>
   created_of host 0 row_undated 1 = Inr (Some (- 172800000)) \<and>
   (\<exists>r. normalizeTask host 0 row_undated 1 = Inr r \<and>
        createdAt r = iso_string (- 172800000) \<and>
        completedAt r = spec_completedAt row_undated (- 172800000)) \<and>
   spec_completedAt row_undated (- 172800000) = JStr ''1969-12-31T00:00:00.000Z'' \<and>
   created_of2 host row_undated = Inr (Some 1577923200000) \<and>
   (\<exists>r. normalizeTask2 host row_undated = Inr r \<and>
        createdAt r = iso_string 1577923200000 \<and>
        completedAt r = spec_completedAt row_undated 1577923200000) \<and>
   spec_completedAt row_undated 1577923200000 = JStr ''2020-01-03T00:00:00.000Z'' \<and>
   created_of host 0 row_last_day 0 = Inr (Some 8640000000000000) \<and>
   normalizeTask host 0 row_last_day 0 = Inl RangeError \<and>
   created_of2 host row_last_day = Inr (Some 8640000000000000) \<and>
   normalizeTask2 host row_last_day = Inl RangeError"
proof -
  have h1: "normalizeTasks host 0 (JArr rows3) = Inr out3"
    and h2: "normalizeTasks2 host (JArr rows3) = Inr out3_2"
    by code_simp+
  have l: "1 < length rows3"
    by (simp add: rows3_def)
  have ok: "row_ok host 0 (rows3 ! 0) 0" "row_ok host 0 (rows3 ! 1) 1"
    "row_ok host 0 (rows3 ! 2) 2"
    and ok2: "row_ok2 host (rows3 ! 0)" "row_ok2 host (rows3 ! 1)" "row_ok2 host (rows3 ! 2)"
    by code_simp+
  have three: "\<And>j. j < length rows3 \<Longrightarrow> j = 0 \<or> j = 1 \<or> j = 2"
    by (auto simp: rows3_def)
  have all: "\<forall>j<length rows3. row_ok host 0 (rows3 ! j) j"
    using ok three by blast
  have all2: "\<forall>j<length rows3. row_ok2 host (rows3 ! j)"
    using ok2 three by blast
  note TA = completedAt_rule [where rt = host and now = 0 and xs = rows3 and out = out3
      and ?out2.0 = out3_2 and i = 1]
  have a1: "\<exists>c. createdAt (out3 ! 1) = iso_string c \<and>
                completedAt (out3 ! 1) = spec_completedAt (rows3 ! 1) c"
    using TA [THEN conjunct1] h1 l by blast
  have a2: "\<exists>c. createdAt (out3_2 ! 1) = iso_string c \<and>
                completedAt (out3_2 ! 1) = spec_completedAt (rows3 ! 1) c"
    using TA [THEN conjunct2, THEN conjunct1] h2 l by blast
  have s1: "\<exists>out. normalizeTasks host 0 (JArr rows3) = Inr out"
    using TA [THEN conjunct2, THEN conjunct2, THEN conjunct1] all by blast
  have s2: "\<exists>out. normalizeTasks2 host (JArr rows3) = Inr out"
    using TA [THEN conjunct2, THEN conjunct2, THEN conjunct2, THEN conjunct1] all2 by blast
  have u: "\<not> nullish row_undated" "primitive (field row_undated ''id'')"
    "primitive (field row_undated ''title'')" "primitive (field row_undated ''revenue'')"
    "primitive (field row_undated ''timeTaken'')"
    by code_simp+
  have c1: "created_of host 0 row_undated 1 = Inr (Some (- 172800000))"
    and c2: "created_of2 host row_undated = Inr (Some 1577923200000)"
    by code_simp+
  have v: "spec_completedAt row_undated (- 172800000) = JStr ''1969-12-31T00:00:00.000Z''"
    "spec_completedAt row_undated 1577923200000 = JStr ''2020-01-03T00:00:00.000Z''"
    by code_simp+
  have r1: "\<bar>(- 172800000::int) + 24 * 3600 * 1000\<bar> \<le> 8640000000000000"
    and r2: "\<bar>(1577923200000::int) + 24 * 3600 * 1000\<bar> \<le> 8640000000000000"
    by simp_all
  note TB1 = completedAt_rule [where rt = host and now = 0 and t = row_undated and idx = 1
      and c = "- 172800000"]
  have b1: "\<exists>r. normalizeTask host 0 row_undated 1 = Inr r \<and>
        createdAt r = iso_string (- 172800000) \<and>
        completedAt r = spec_completedAt row_undated (- 172800000)"
    using TB1 [THEN conjunct2, THEN conjunct2, THEN conjunct2, THEN conjunct2, THEN conjunct1]
      u c1 r1 by blast
  note TB2 = completedAt_rule [where rt = host and t = row_undated and c = 1577923200000]
  have b2: "\<exists>r. normalizeTask2 host row_undated = Inr r \<and>
        createdAt r = iso_string 1577923200000 \<and>
        completedAt r = spec_completedAt row_undated 1577923200000"
    using TB2 [THEN conjunct2, THEN conjunct2, THEN conjunct2, THEN conjunct2, THEN conjunct2,
        THEN conjunct1] u c2 r2 by blast
  have w: "\<not> nullish row_last_day" "\<not> truthy (field row_last_day ''completedAt'')"
    "field row_last_day ''status'' = Done"
    by code_simp+
  have d1: "created_of host 0 row_last_day 0 = Inr (Some 8640000000000000)"
    and d2: "created_of2 host row_last_day = Inr (Some 8640000000000000)"
    by code_simp+
  have r3: "\<exists>c. Some (8640000000000000::int) = Some c \<and>
                \<bar>c + 24 * 3600 * 1000\<bar> > 8640000000000000"
    by simp
  note TC = completedAt_rule [where rt = host and now = 0 and t = row_last_day and idx = 0
      and d = "Some 8640000000000000"]
  have e1: "normalizeTask host 0 row_last_day 0 = Inl RangeError"
    using TC [THEN conjunct2, THEN conjunct2, THEN conjunct2, THEN conjunct2, THEN conjunct2,
        THEN conjunct2, THEN conjunct1] w d1 r3 by blast
  have e2: "normalizeTask2 host row_last_day = Inl RangeError"
    using TC [THEN conjunct2, THEN conjunct2, THEN conjunct2, THEN conjunct2, THEN conjunct2,
        THEN conjunct2, THEN conjunct2] w d2 r3 by blast
  from h1 h2 ok ok2 s1 s2 a1 a2 c1 b1 v(1) c2 b2 v(2) d1 e1 d2 e2 show ?thesis
    by (intro conjI)
qed

subsection \<open>The completion stamp of updateTask\<close>

text \<open>
  Claim C7 says that a patch which sets the status to Done without a \<^verbatim>\<open>completedAt\<close>
  always gets the current time as stamp, and that this time is at or after
  \<^verbatim>\<open>createdAt\<close>. The code stamps only when the merged record has no
  \<^verbatim>\<open>completedAt\<close>: a task that was finished at time 0, reopened, and finished again one
  day later keeps the completion time of day 0. And the stamp is the clock, whatever
  \<^verbatim>\<open>createdAt\<close> is: a task created in 2999 and finished in 2024 is completed before it
  is created.
\<close>

theorem done_without_stamp:
  "map status (tasks reopened) = [JStr ''In Progress''] \<and>
   p_status p_done = Some Done \<and> p_completedAt p_done = None \<and>
   map completedAt (tasks (updateTask 86400000 ''a'' p_done reopened)) =
     [JStr ''1970-01-01T00:00:00.000Z''] \<and>
   map status (tasks reopened2) = [JStr ''In Progress''] \<and>
   map completedAt (tasks (updateTask2 86400000 ''a'' p_done reopened2)) =
     [JStr ''1970-01-01T00:00:00.000Z''] \<and>
   iso_string 86400000 = ''1970-01-02T00:00:00.000Z'' \<and>
   map status (tasks planned) = [JStr ''In Progress''] \<and>
   map createdAt (tasks (updateTask 1704067200000 ''t-9'' p_done planned)) =
     [''2999-01-01T00:00:00.000Z''] \<and>
   map completedAt (tasks (updateTask 1704067200000 ''t-9'' p_done planned)) =
     [JStr ''2024-01-01T00:00:00.000Z'']"
  by code_simp

lemma stamp_fields:
  assumes "status t \<noteq> Done" "p_status p = Some Done" "p_completedAt p = None"
  shows "completedAt (stamp now t p) =
           (if truthy (completedAt t) then completedAt t else JStr (iso_string now))"
    and "createdAt (stamp now t p) = or_else (p_createdAt p) (createdAt t)"
  using assms by (simp_all add: stamp_def merge_def or_else_def Let_def)

text \<open>
  Claim C7, amended. For every record of the store whose status is not Done and every
  patch that sets the status to Done and has no \<^verbatim>\<open>completedAt\<close>, in either listing:
  when the record has no truthy \<^verbatim>\<open>completedAt\<close>, \<^verbatim>\<open>updateTask\<close> sets the
  \<^verbatim>\<open>completedAt\<close> of the merged record to the current time; when the record already has
  a truthy \<^verbatim>\<open>completedAt\<close>, that value is kept and no stamp is made. \<^verbatim>\<open>createdAt\<close> is
  not looked at and stays what the merge gives, the record's own unless the patch sets
  it, so the stamp is a time at or after \<^verbatim>\<open>createdAt\<close> when \<^verbatim>\<open>createdAt\<close> is not later
  than the clock.
\<close>

theorem stamp_on_done:
  assumes "k < length (tasks s)"
    and "id' (tasks s ! k) = JStr i"
    and "status (tasks s ! k) \<noteq> Done"
    and "p_status p = Some Done"
    and "p_completedAt p = None"
  shows "completedAt (tasks (updateTask now i p s) ! k) =
           (if truthy (completedAt (tasks s ! k)) then completedAt (tasks s ! k)
            else JStr (iso_string now)) \<and>
         completedAt (tasks (updateTask2 now i p s) ! k) =
           (if truthy (completedAt (tasks s ! k)) then completedAt (tasks s ! k)
            else JStr (iso_string now)) \<and>
         createdAt (tasks (updateTask now i p s) ! k) =
           or_else (p_createdAt p) (createdAt (tasks s ! k)) \<and>
         createdAt (tasks (updateTask2 now i p s) ! k) =
           or_else (p_createdAt p) (createdAt (tasks s ! k)) \<and>
         (\<not> truthy (completedAt (tasks s ! k)) \<and> p_createdAt p = None \<and>
          createdAt (tasks s ! k) = iso_string c \<and> c \<le> now \<longrightarrow>
            (\<exists>n\<ge>c. createdAt (tasks (updateTask now i p s) ! k) = iso_string c \<and>
                   completedAt (tasks (updateTask now i p s) ! k) = JStr (iso_string n) \<and>
                   createdAt (tasks (updateTask2 now i p s) ! k) = iso_string c \<and>
                   completedAt (tasks (updateTask2 now i p s) ! k) = JStr (iso_string n)))"
proof -
  let ?t = "tasks s ! k"
  note st = stamp_fields [OF assms(3-5), of now]
  have a: "completedAt (tasks (updateTask now i p s) ! k) =
           (if truthy (completedAt ?t) then completedAt ?t else JStr (iso_string now))"
    using assms(1,2) st(1) by (simp add: updateTask_def Let_def)
  have b: "completedAt (tasks (updateTask2 now i p s) ! k) =
           (if truthy (completedAt ?t) then completedAt ?t else JStr (iso_string now))"
    using assms(1,2) st(1) by (simp add: updateTask2_def Let_def)
  have c: "createdAt (tasks (updateTask now i p s) ! k) = or_else (p_createdAt p) (createdAt ?t)"
    using assms(1,2) st(2) by (simp add: updateTask_def Let_def)
  have d: "createdAt (tasks (updateTask2 now i p s) ! k) = or_else (p_createdAt p) (createdAt ?t)"
    using assms(1,2) st(2) by (simp add: updateTask2_def Let_def)
  have e: "\<not> truthy (completedAt ?t) \<and> p_createdAt p = None \<and>
           createdAt ?t = iso_string c \<and> c \<le> now \<longrightarrow>
            (\<exists>n\<ge>c. createdAt (tasks (updateTask now i p s) ! k) = iso_string c \<and>
                   completedAt (tasks (updateTask now i p s) ! k) = JStr (iso_string n) \<and>
                   createdAt (tasks (updateTask2 now i p s) ! k) = iso_string c \<and>
                   completedAt (tasks (updateTask2 now i p s) ! k) = JStr (iso_string n))"
  proof
    assume h: "\<not> truthy (completedAt ?t) \<and> p_createdAt p = None \<and>
               createdAt ?t = iso_string c \<and> c \<le> now"
    then have "createdAt (tasks (updateTask now i p s) ! k) = iso_string c \<and>
               completedAt (tasks (updateTask now i p s) ! k) = JStr (iso_string now) \<and>
               createdAt (tasks (updateTask2 now i p s) ! k) = iso_string c \<and>
               completedAt (tasks (updateTask2 now i p s) ! k) = JStr (iso_string now)"
      using a b c d by (simp add: or_else_def)
    with h show "\<exists>n\<ge>c. createdAt (tasks (updateTask now i p s) ! k) = iso_string c \<and>
                   completedAt (tasks (updateTask now i p s) ! k) = JStr (iso_string n) \<and>
                   createdAt (tasks (updateTask2 now i p s) ! k) = iso_string c \<and>
                   completedAt (tasks (updateTask2 now i p s) ! k) = JStr (iso_string n)"
      by blast
  qed
  from a b c d e show ?thesis by (intro conjI)
qed

theorem stamp_on_done_witness:
  "0 < length (tasks (addTask ''u'' 0 nt_a initial)) \<and>
   id' (tasks (addTask ''u'' 0 nt_a initial) ! 0) = JStr ''a'' \<and>
   status (tasks (addTask ''u'' 0 nt_a initial) ! 0) \<noteq> Done \<and>
   \<not> truthy (completedAt (tasks (addTask ''u'' 0 nt_a initial) ! 0)) \<and>
   createdAt (tasks (addTask ''u'' 0 nt_a initial) ! 0) = iso_string 0 \<and>
   completedAt (tasks (updateTask 86400000 ''a'' p_done (addTask ''u'' 0 nt_a initial)) ! 0) =
     JStr (iso_string 86400000) \<and>
   completedAt (tasks (updateTask2 86400000 ''a'' p_done (addTask ''u'' 0 nt_a initial)) ! 0) =
     JStr (iso_string 86400000) \<and>
   (\<exists>n\<ge>0. createdAt (tasks (updateTask 86400000 ''a'' p_done
                               (addTask ''u'' 0 nt_a initial)) ! 0) = iso_string 0 \<and>
          completedAt (tasks (updateTask 86400000 ''a'' p_done
                               (addTask ''u'' 0 nt_a initial)) ! 0) = JStr (iso_string n) \<and>
          createdAt (tasks (updateTask2 86400000 ''a'' p_done
                               (addTask ''u'' 0 nt_a initial)) ! 0) = iso_string 0 \<and>
          completedAt (tasks (updateTask2 86400000 ''a'' p_done
                               (addTask ''u'' 0 nt_a initial)) ! 0) = JStr (iso_string n)) \<and>
   0 < length (tasks reopened) \<and> id' (tasks reopened ! 0) = JStr ''a'' \<and>
   status (tasks reopened ! 0) \<noteq> Done \<and> truthy (completedAt (tasks reopened ! 0)) \<and>
   completedAt (tasks (updateTask 86400000 ''a'' p_done reopened) ! 0) =
     completedAt (tasks reopened ! 0) \<and>
   completedAt (tasks (updateTask2 86400000 ''a'' p_done reopened) ! 0) =
     completedAt (tasks reopened ! 0)"
proof -
  let ?s = "addTask ''u'' 0 nt_a initial"
  have h: "0 < length (tasks ?s)" "id' (tasks ?s ! 0) = JStr ''a''"
    "status (tasks ?s ! 0) \<noteq> Done" "p_status p_done = Some Done" "p_completedAt p_done = None"
    by code_simp+
  have f: "\<not> truthy (completedAt (tasks ?s ! 0))" "p_createdAt p_done = None"
    "createdAt (tasks ?s ! 0) = iso_string 0"
    by code_simp+
  note T = stamp_on_done [OF h, where now = 86400000 and c = 0]
  have a: "completedAt (tasks (updateTask 86400000 ''a'' p_done ?s) ! 0) =
           JStr (iso_string 86400000)"
    using T [THEN conjunct1] f(1) by simp
  have b: "completedAt (tasks (updateTask2 86400000 ''a'' p_done ?s) ! 0) =
           JStr (iso_string 86400000)"
    using T [THEN conjunct2, THEN conjunct1] f(1) by simp
  have le: "(0::int) \<le> 86400000" by simp
  have e: "\<exists>n\<ge>0. createdAt (tasks (updateTask 86400000 ''a'' p_done ?s) ! 0) = iso_string 0 \<and>
          completedAt (tasks (updateTask 86400000 ''a'' p_done ?s) ! 0) = JStr (iso_string n) \<and>
          createdAt (tasks (updateTask2 86400000 ''a'' p_done ?s) ! 0) = iso_string 0 \<and>
          completedAt (tasks (updateTask2 86400000 ''a'' p_done ?s) ! 0) = JStr (iso_string n)"
    using T [THEN conjunct2, THEN conjunct2, THEN conjunct2, THEN conjunct2] f le by blast
  have g: "0 < length (tasks reopened)" "id' (tasks reopened ! 0) = JStr ''a''"
    "status (tasks reopened ! 0) \<noteq> Done" "p_status p_done = Some Done"
    "p_completedAt p_done = None"
    by code_simp+
  have tr: "truthy (completedAt (tasks reopened ! 0))"
    by code_simp
  note K = stamp_on_done [OF g, where now = 86400000]
  have k1: "completedAt (tasks (updateTask 86400000 ''a'' p_done reopened) ! 0) =
            completedAt (tasks reopened ! 0)"
    using K [THEN conjunct1] tr by simp
  have k2: "completedAt (tasks (updateTask2 86400000 ''a'' p_done reopened) ! 0) =
            completedAt (tasks reopened ! 0)"
    using K [THEN conjunct2, THEN conjunct1] tr by simp
  from h(1-3) f(1,3) a b e g(1-3) tr k1 k2 show ?thesis
    by (intro conjI)
qed

subsection \<open>The one-shot load\<close>

text \<open>
  Each event that does \<open>P\<close> uses up one unit of a measure that only a new mount
  increases, and by one, so \<open>P\<close> is done at most as often as the measure of the first
  state and the number of new mounts allow.
\<close>

lemma occurrences_bound:
  assumes "\<And>e s. (if P e s then 1 else 0) + m (st e s) \<le> m s + (if e = Remount then 1 else 0)"
  shows "occurrences P st es s \<le> m s + count_list es Remount"
proof (induction es arbitrary: s)
  case Nil
  then show ?case by simp
next
  case (Cons e es)
  have "occurrences P st (e # es) s = (if P e s then 1 else 0) + occurrences P st es (st e s)"
    by simp
  also have "\<dots> \<le> (if P e s then 1 else 0) + m (st e s) + count_list es Remount"
    using Cons.IH [of "st e s"] by simp
  also have "\<dots> \<le> m s + (if e = Remount then 1 else 0) + count_list es Remount"
    using assms [of e s] by simp
  also have "\<dots> = m s + count_list (e # es) Remount"
    by simp
  finally show ?case .
qed

lemma pending_settled:
  "k < length ls \<Longrightarrow> ls ! k \<noteq> Settled \<Longrightarrow> Suc (pending (ls[k := Settled])) = pending ls"
proof (induction ls arbitrary: k)
  case Nil
  then show ?case by simp
next
  case (Cons l ls)
  then show ?case by (cases k) (auto simp: pending_def)
qed

lemma pending_unmounted:
  "k < length ls \<Longrightarrow> ls ! k \<noteq> Settled \<Longrightarrow> pending (ls[k := Pending False]) = pending ls"
proof (induction ls arbitrary: k)
  case Nil
  then show ?case by simp
next
  case (Cons l ls)
  then show ?case by (cases k) (auto simp: pending_def)
qed

lemma pending_append: "pending (ls @ [Pending b]) = Suc (pending ls)"
  by (simp add: pending_def)

lemma pending_map_unmounted: "pending (map unmounted ls) = pending ls"
proof (induction ls)
  case Nil
  then show ?case by (simp add: pending_def)
next
  case (Cons l ls)
  then show ?case by (cases l) (simp_all add: pending_def)
qed

lemma crud_keeps_loader:
  "fetchedRef (addTask u now nt s) = fetchedRef s" "loads (addTask u now nt s) = loads s"
  "fetchedRef (updateTask now i p s) = fetchedRef s" "loads (updateTask now i p s) = loads s"
  "fetchedRef (updateTask2 now i p s) = fetchedRef s" "loads (updateTask2 now i p s) = loads s"
  "fetchedRef (deleteTask i s) = fetchedRef s" "loads (deleteTask i s) = loads s"
  "fetchedRef (undoDelete s) = fetchedRef s" "loads (undoDelete s) = loads s"
  "fetchedRef (clearLastDeleted s) = fetchedRef s" "loads (clearLastDeleted s) = loads s"
  "fetchedRef (render s) = fetchedRef s" "loads (render s) = loads s"
  by (simp_all add: addTask_def updateTask_def updateTask2_def deleteTask_def undoDelete_def
      clearLastDeleted_def render_def Let_def split: option.splits)

lemma effect_loader:
  "fetchedRef (effect s)"
  "loads (effect s) = (if fetchedRef s then loads s else loads s @ [Pending True])"
  by (simp_all add: effect_def)

lemma cleanup_loader:
  "fetchedRef (cleanup k s) = fetchedRef s"
  "pending (loads (cleanup k s)) = pending (loads s)"
  by (simp_all add: cleanup_def pending_unmounted)

lemma settle_loader:
  "fetchedRef (settle rt md nz k r s) = fetchedRef s"
  "loads (settle rt md nz k r s) =
     (if k < length (loads s) \<and> loads s ! k \<noteq> Settled then (loads s)[k := Settled] else loads s)"
  by (simp_all add: settle_def Let_def split: sum.splits)

lemma remount_loader:
  "\<not> fetchedRef (remount s)"
  "pending (loads (remount s)) = pending (loads s)"
  by (simp_all add: remount_def initial_def pending_map_unmounted)

lemma step_fetch_budget:
  "(if fetches e s then 1 else 0) + fetch_budget (step rt md e s)
     \<le> fetch_budget s + (if e = Remount then 1 else 0)"
  "(if fetches e s then 1 else 0) + fetch_budget (step2 rt md e s)
     \<le> fetch_budget s + (if e = Remount then 1 else 0)"
  by (cases e; simp add: fetch_budget_def crud_keeps_loader effect_loader cleanup_loader
        settle_loader remount_loader)+

lemma step_load_budget:
  "load_budget (step rt md e s) \<le> load_budget s + (if e = Remount then 1 else 0)"
  "load_budget (step2 rt md e s) \<le> load_budget s + (if e = Remount then 1 else 0)"
  by (cases e; simp add: load_budget_def fetch_budget_def crud_keeps_loader effect_loader
        cleanup_loader settle_loader remount_loader pending_append;
      use pending_settled [of _ "loads s"] in fastforce)+

lemma settle_load_budget:
  assumes "k < length (loads s)" "loads s ! k \<noteq> Settled"
  shows "Suc (load_budget (settle rt md nz k r s)) = load_budget s"
  using assms pending_settled [OF assms]
  by (simp add: load_budget_def fetch_budget_def settle_loader)

lemma step_normalizes:
  "(if normalizes e s then 1 else 0) + load_budget (step rt md e s)
     \<le> load_budget s + (if e = Remount then 1 else 0)"
  "(if normalizes e s then 1 else 0) + load_budget (step2 rt md e s)
     \<le> load_budget s + (if e = Remount then 1 else 0)"
proof -
  show "(if normalizes e s then 1 else 0) + load_budget (step rt md e s)
     \<le> load_budget s + (if e = Remount then 1 else 0)"
  proof (cases "normalizes e s")
    case True
    then obtain k now j where e: "e = Settle k now (Json j)"
      by (cases "(e, s)" rule: normalizes.cases) auto
    with True show ?thesis
      using settle_load_budget [of k s rt md "normalizeTasks rt now" "Json j"] by simp
  next
    case False
    then show ?thesis using step_load_budget(1) [of rt md e s] by simp
  qed
  show "(if normalizes e s then 1 else 0) + load_budget (step2 rt md e s)
     \<le> load_budget s + (if e = Remount then 1 else 0)"
  proof (cases "normalizes e s")
    case True
    then obtain k now j where e: "e = Settle k now (Json j)"
      by (cases "(e, s)" rule: normalizes.cases) auto
    with True show ?thesis
      using settle_load_budget [of k s rt md "normalizeTasks2 rt" "Json j"] by simp
  next
    case False
    then show ?thesis using step_load_budget(2) [of rt md e s] by simp
  qed
qed

lemma step_seeds:
  "(if seeds rt md (normalizeTasks rt) e s then 1 else 0) + load_budget (step rt md e s)
     \<le> load_budget s + (if e = Remount then 1 else 0)"
  "(if seeds rt md (\<lambda>now. normalizeTasks2 rt) e s then 1 else 0) + load_budget (step2 rt md e s)
     \<le> load_budget s + (if e = Remount then 1 else 0)"
proof -
  show "(if seeds rt md (normalizeTasks rt) e s then 1 else 0) + load_budget (step rt md e s)
     \<le> load_budget s + (if e = Remount then 1 else 0)"
  proof (cases "seeds rt md (normalizeTasks rt) e s")
    case True
    then obtain k now r where e: "e = Settle k now r"
      by (cases e) auto
    with True show ?thesis
      using settle_load_budget [of k s rt md "normalizeTasks rt now" r] by simp
  next
    case False
    then show ?thesis using step_load_budget(1) [of rt md e s] by simp
  qed
  show "(if seeds rt md (\<lambda>now. normalizeTasks2 rt) e s then 1 else 0) +
        load_budget (step2 rt md e s) \<le> load_budget s + (if e = Remount then 1 else 0)"
  proof (cases "seeds rt md (\<lambda>now. normalizeTasks2 rt) e s")
    case True
    then obtain k now r where e: "e = Settle k now r"
      by (cases e) auto
    with True show ?thesis
      using settle_load_budget [of k s rt md "normalizeTasks2 rt" r] by simp
  next
    case False
    then show ?thesis using step_load_budget(2) [of rt md e s] by simp
  qed
qed

lemma initial_budget: "fetch_budget initial = 1" "load_budget initial = 1"
  by (simp_all add: fetch_budget_def load_budget_def initial_def pending_def)

text \<open>
  Within one instance, that is without a new mount, the measure is not increased at all.
\<close>

lemma occurrences_bound_instance:
  assumes "\<And>e s. e \<noteq> Remount \<Longrightarrow> (if P e s then 1 else 0) + m (st e s) \<le> m s"
    and "Remount \<notin> set es"
  shows "occurrences P st es s \<le> m s"
  using assms(2)
proof (induction es arbitrary: s)
  case Nil
  then show ?case by simp
next
  case (Cons e es)
  then have e: "e \<noteq> Remount" and es: "Remount \<notin> set es" by auto
  have "occurrences P st (e # es) s = (if P e s then 1 else 0) + occurrences P st es (st e s)"
    by simp
  also have "\<dots> \<le> (if P e s then 1 else 0) + m (st e s)"
    using Cons.IH [OF es, of "st e s"] by simp
  also have "\<dots> \<le> m s" using assms(1) [OF e] .
  finally show ?case .
qed

lemma mounted_settled:
  "k < length ls \<Longrightarrow> ls ! k = Pending True \<Longrightarrow> Suc (mounted (ls[k := Settled])) = mounted ls"
proof (induction ls arbitrary: k)
  case Nil
  then show ?case by simp
next
  case (Cons l ls)
  then show ?case by (cases k) (auto simp: mounted_def)
qed

lemma mounted_update_le:
  "l \<noteq> Pending True \<Longrightarrow> mounted (ls[k := l]) \<le> mounted ls"
proof (induction ls arbitrary: k)
  case Nil
  then show ?case by simp
next
  case (Cons x ls)
  then show ?case by (cases k) (auto simp: mounted_def le_SucI)
qed

lemma mounted_append: "mounted (ls @ [Pending True]) = Suc (mounted ls)"
  by (simp add: mounted_def)

lemma mounted_map_unmounted: "mounted (map unmounted ls) = 0"
proof (induction ls)
  case Nil
  then show ?case by (simp add: mounted_def)
next
  case (Cons l ls)
  then show ?case by (cases l) (simp_all add: mounted_def)
qed

lemma step_seed_budget:
  "seed_budget (step rt md e s) \<le> seed_budget s + (if e = Remount then 1 else 0)"
  "seed_budget (step2 rt md e s) \<le> seed_budget s + (if e = Remount then 1 else 0)"
  by (cases e; simp add: seed_budget_def fetch_budget_def crud_keeps_loader effect_loader
        settle_loader remount_def initial_def cleanup_def mounted_append mounted_update_le
        mounted_map_unmounted)+

lemma settle_seed_budget:
  assumes "k < length (loads s)" "loads s ! k = Pending True"
  shows "Suc (seed_budget (settle rt md nz k r s)) = seed_budget s"
  using assms mounted_settled [OF assms]
  by (simp add: seed_budget_def fetch_budget_def settle_loader)

lemma step_seeds_instance:
  "e \<noteq> Remount \<Longrightarrow>
   (if seeds rt md (normalizeTasks rt) e s then 1 else 0) + seed_budget (step rt md e s)
     \<le> seed_budget s"
  "e \<noteq> Remount \<Longrightarrow>
   (if seeds rt md (\<lambda>now. normalizeTasks2 rt) e s then 1 else 0) + seed_budget (step2 rt md e s)
     \<le> seed_budget s"
proof -
  assume ne: "e \<noteq> Remount"
  show "(if seeds rt md (normalizeTasks rt) e s then 1 else 0) + seed_budget (step rt md e s)
     \<le> seed_budget s"
  proof (cases "seeds rt md (normalizeTasks rt) e s")
    case True
    then obtain k now r where e: "e = Settle k now r"
      by (cases e) auto
    with True show ?thesis
      using settle_seed_budget [of k s rt md "normalizeTasks rt now" r] by simp
  next
    case False
    then show ?thesis using step_seed_budget(1) [of rt md e s] ne by simp
  qed
  show "(if seeds rt md (\<lambda>now. normalizeTasks2 rt) e s then 1 else 0) +
        seed_budget (step2 rt md e s) \<le> seed_budget s"
  proof (cases "seeds rt md (\<lambda>now. normalizeTasks2 rt) e s")
    case True
    then obtain k now r where e: "e = Settle k now r"
      by (cases e) auto
    with True show ?thesis
      using settle_seed_budget [of k s rt md "normalizeTasks2 rt" r] by simp
  next
    case False
    then show ?thesis using step_seed_budget(2) [of rt md e s] ne by simp
  qed
qed

lemma step_fetch_instance:
  "e \<noteq> Remount \<Longrightarrow> (if fetches e s then 1 else 0) + fetch_budget (step rt md e s) \<le> fetch_budget s"
  "e \<noteq> Remount \<Longrightarrow> (if fetches e s then 1 else 0) + fetch_budget (step2 rt md e s) \<le> fetch_budget s"
  using step_fetch_budget [of e s rt md] by simp_all

lemma initial_seed_budget: "seed_budget initial = 1"
  by (simp add: fetch_budget_def seed_budget_def initial_def mounted_def)

lemma remount_budget: "fetch_budget (remount s) = 1" "seed_budget (remount s) = 1"
  by (simp_all add: fetch_budget_def seed_budget_def initial_def remount_def
        mounted_map_unmounted)

lemma seeding_replaces:
  "seeds rt md nz (Settle k now r) s \<Longrightarrow>
   Inr (tasks (settle rt md (nz now) k r s)) = load_body rt md (nz now) r"
  by (cases "load_body rt md (nz now) r") (auto simp: settle_def Let_def)

text \<open>
  Claim C10 says that the fetch, the normalization and the seeding run at most once per
  session, also under remount. The flag is a \<^verbatim>\<open>useRef\<close> of the hook instance. When
  the component is unmounted and mounted again the new instance has a fresh ref, and its
  effect fetches, normalizes and seeds a second time, in either listing.
\<close>

theorem remount_loads_again:
  "occurrences fetches (step host md0) two_mounts initial = 2 \<and>
   occurrences normalizes (step host md0) two_mounts initial = 2 \<and>
   occurrences (seeds host md0 (normalizeTasks host)) (step host md0) two_mounts initial = 2 \<and>
   occurrences fetches (step2 host md0) two_mounts initial = 2 \<and>
   occurrences normalizes (step2 host md0) two_mounts initial = 2 \<and>
   occurrences (seeds host md0 (\<lambda>now. normalizeTasks2 host)) (step2 host md0) two_mounts
     initial = 2"
  by code_simp

text \<open>
  Claim C10, amended. The load runs at most once per mounted instance of the hook: on
  one instance (the first one, or the one that an unmount and mount starts), however
  often the effect runs (re-render, the effect, cleanup and effect of StrictMode),
  \<^verbatim>\<open>load()\<close> with its fetch is called at most once and \<^verbatim>\<open>setTasks(finalTasks)\<close> is
  reached at most once, because the first run sets \<^verbatim>\<open>fetchedRef\<close> and nothing clears
  it; on the first instance \<^verbatim>\<open>normalizeTasks\<close> runs at most once as well. An unmount
  and mount makes a new ref and allows one more load, so in a session with \<open>n\<close> of them
  the fetch, the normalization and the seeding each happen at most \<open>n + 1\<close> times. The
  loader replaces the collection by the final tasks, so it never appends records to those
  already there.
\<close>

theorem load_once_per_mount:
  "occurrences fetches (step rt md) es initial \<le> Suc (count_list es Remount) \<and>
   occurrences normalizes (step rt md) es initial \<le> Suc (count_list es Remount) \<and>
   occurrences (seeds rt md (normalizeTasks rt)) (step rt md) es initial
     \<le> Suc (count_list es Remount) \<and>
   occurrences fetches (step2 rt md) es initial \<le> Suc (count_list es Remount) \<and>
   occurrences normalizes (step2 rt md) es initial \<le> Suc (count_list es Remount) \<and>
   occurrences (seeds rt md (\<lambda>now. normalizeTasks2 rt)) (step2 rt md) es initial
     \<le> Suc (count_list es Remount) \<and>
   (seeds rt md (normalizeTasks rt) (Settle k now r) s \<longrightarrow>
      Inr (tasks (step rt md (Settle k now r) s)) = load_body rt md (normalizeTasks rt now) r) \<and>
   (seeds rt md (\<lambda>now. normalizeTasks2 rt) (Settle k now r) s \<longrightarrow>
      Inr (tasks (step2 rt md (Settle k now r) s)) = load_body rt md (normalizeTasks2 rt) r) \<and>
   (Remount \<notin> set es \<longrightarrow>
      occurrences fetches (step rt md) es initial \<le> 1 \<and>
      occurrences normalizes (step rt md) es initial \<le> 1 \<and>
      occurrences (seeds rt md (normalizeTasks rt)) (step rt md) es initial \<le> 1 \<and>
      occurrences fetches (step2 rt md) es initial \<le> 1 \<and>
      occurrences normalizes (step2 rt md) es initial \<le> 1 \<and>
      occurrences (seeds rt md (\<lambda>now. normalizeTasks2 rt)) (step2 rt md) es initial \<le> 1 \<and>
      occurrences fetches (step rt md) es (remount s) \<le> 1 \<and>
      occurrences (seeds rt md (normalizeTasks rt)) (step rt md) es (remount s) \<le> 1 \<and>
      occurrences fetches (step2 rt md) es (remount s) \<le> 1 \<and>
      occurrences (seeds rt md (\<lambda>now. normalizeTasks2 rt)) (step2 rt md) es (remount s) \<le> 1)"
proof -
  have c: "Remount \<notin> set es \<longrightarrow>
      occurrences fetches (step rt md) es initial \<le> 1 \<and>
      occurrences normalizes (step rt md) es initial \<le> 1 \<and>
      occurrences (seeds rt md (normalizeTasks rt)) (step rt md) es initial \<le> 1 \<and>
      occurrences fetches (step2 rt md) es initial \<le> 1 \<and>
      occurrences normalizes (step2 rt md) es initial \<le> 1 \<and>
      occurrences (seeds rt md (\<lambda>now. normalizeTasks2 rt)) (step2 rt md) es initial \<le> 1 \<and>
      occurrences fetches (step rt md) es (remount s) \<le> 1 \<and>
      occurrences (seeds rt md (normalizeTasks rt)) (step rt md) es (remount s) \<le> 1 \<and>
      occurrences fetches (step2 rt md) es (remount s) \<le> 1 \<and>
      occurrences (seeds rt md (\<lambda>now. normalizeTasks2 rt)) (step2 rt md) es (remount s) \<le> 1"
  proof
    assume n: "Remount \<notin> set es"
    then have z: "count_list es Remount = 0"
      by (simp add: count_list_0_iff)
    have i1: "occurrences fetches (step rt md) es initial \<le> 1"
      using occurrences_bound [of fetches fetch_budget "step rt md" es initial,
          OF step_fetch_budget(1)] z by (simp add: initial_budget)
    have i2: "occurrences normalizes (step rt md) es initial \<le> 1"
      using occurrences_bound [of normalizes load_budget "step rt md" es initial,
          OF step_normalizes(1)] z by (simp add: initial_budget)
    have i3: "occurrences (seeds rt md (normalizeTasks rt)) (step rt md) es initial \<le> 1"
      using occurrences_bound [of "seeds rt md (normalizeTasks rt)" load_budget "step rt md" es
          initial, OF step_seeds(1)] z by (simp add: initial_budget)
    have i4: "occurrences fetches (step2 rt md) es initial \<le> 1"
      using occurrences_bound [of fetches fetch_budget "step2 rt md" es initial,
          OF step_fetch_budget(2)] z by (simp add: initial_budget)
    have i5: "occurrences normalizes (step2 rt md) es initial \<le> 1"
      using occurrences_bound [of normalizes load_budget "step2 rt md" es initial,
          OF step_normalizes(2)] z by (simp add: initial_budget)
    have i6: "occurrences (seeds rt md (\<lambda>now. normalizeTasks2 rt)) (step2 rt md) es initial \<le> 1"
      using occurrences_bound [of "seeds rt md (\<lambda>now. normalizeTasks2 rt)" load_budget
          "step2 rt md" es initial, OF step_seeds(2)] z by (simp add: initial_budget)
    have r1: "occurrences fetches (step rt md) es (remount s) \<le> 1"
      using occurrences_bound_instance [of fetches fetch_budget "step rt md" es "remount s",
          OF step_fetch_instance(1) n] by (simp add: remount_budget)
    have r2: "occurrences (seeds rt md (normalizeTasks rt)) (step rt md) es (remount s) \<le> 1"
      using occurrences_bound_instance [of "seeds rt md (normalizeTasks rt)" seed_budget
          "step rt md" es "remount s", OF step_seeds_instance(1) n]
      by (simp add: remount_budget)
    have r3: "occurrences fetches (step2 rt md) es (remount s) \<le> 1"
      using occurrences_bound_instance [of fetches fetch_budget "step2 rt md" es "remount s",
          OF step_fetch_instance(2) n] by (simp add: remount_budget)
    have r4: "occurrences (seeds rt md (\<lambda>now. normalizeTasks2 rt)) (step2 rt md) es (remount s)
              \<le> 1"
      using occurrences_bound_instance [of "seeds rt md (\<lambda>now. normalizeTasks2 rt)" seed_budget
          "step2 rt md" es "remount s", OF step_seeds_instance(2) n]
      by (simp add: remount_budget)
    from i1 i2 i3 i4 i5 i6 r1 r2 r3 r4
    show "occurrences fetches (step rt md) es initial \<le> 1 \<and>
      occurrences normalizes (step rt md) es initial \<le> 1 \<and>
      occurrences (seeds rt md (normalizeTasks rt)) (step rt md) es initial \<le> 1 \<and>
      occurrences fetches (step2 rt md) es initial \<le> 1 \<and>
      occurrences normalizes (step2 rt md) es initial \<le> 1 \<and>
      occurrences (seeds rt md (\<lambda>now. normalizeTasks2 rt)) (step2 rt md) es initial \<le> 1 \<and>
      occurrences fetches (step rt md) es (remount s) \<le> 1 \<and>
      occurrences (seeds rt md (normalizeTasks rt)) (step rt md) es (remount s) \<le> 1 \<and>
      occurrences fetches (step2 rt md) es (remount s) \<le> 1 \<and>
      occurrences (seeds rt md (\<lambda>now. normalizeTasks2 rt)) (step2 rt md) es (remount s) \<le> 1"
      by (intro conjI)
  qed
  have a: "seeds rt md (normalizeTasks rt) (Settle k now r) s \<longrightarrow>
      Inr (tasks (step rt md (Settle k now r) s)) = load_body rt md (normalizeTasks rt now) r"
    using seeding_replaces [of rt md "normalizeTasks rt" k now r s] by simp
  have b: "seeds rt md (\<lambda>now. normalizeTasks2 rt) (Settle k now r) s \<longrightarrow>
      Inr (tasks (step2 rt md (Settle k now r) s)) = load_body rt md (normalizeTasks2 rt) r"
    using seeding_replaces [of rt md "\<lambda>now. normalizeTasks2 rt" k now r s] by simp
  show ?thesis
    using occurrences_bound [of fetches fetch_budget "step rt md" es initial,
        OF step_fetch_budget(1)]
      occurrences_bound [of normalizes load_budget "step rt md" es initial,
        OF step_normalizes(1)]
      occurrences_bound [of "seeds rt md (normalizeTasks rt)" load_budget "step rt md" es
        initial, OF step_seeds(1)]
      occurrences_bound [of fetches fetch_budget "step2 rt md" es initial,
        OF step_fetch_budget(2)]
      occurrences_bound [of normalizes load_budget "step2 rt md" es initial,
        OF step_normalizes(2)]
      occurrences_bound [of "seeds rt md (\<lambda>now. normalizeTasks2 rt)" load_budget
        "step2 rt md" es initial, OF step_seeds(2)]
      a b c
    by (simp add: initial_budget)
qed

theorem load_once_per_mount_witness:
  "count_list strict_mode Remount = 0 \<and> Remount \<notin> set strict_mode \<and>
   occurrences fetches (step host md0) strict_mode (remount (effect initial)) \<le> 1 \<and>
   occurrences (seeds host md0 (\<lambda>now. normalizeTasks2 host)) (step2 host md0) strict_mode
     (remount (effect initial)) \<le> 1 \<and>
   occurrences fetches (step host md0) strict_mode initial \<le> 1 \<and>
   occurrences normalizes (step2 host md0) strict_mode initial \<le> 1 \<and>
   seeds host md0 (normalizeTasks host) (Settle 0 0 (Json (JArr [row_abc]))) (effect initial) \<and>
   Inr (tasks (step host md0 (Settle 0 0 (Json (JArr [row_abc]))) (effect initial))) =
     load_body host md0 (normalizeTasks host 0) (Json (JArr [row_abc])) \<and>
   seeds host md0 (\<lambda>now. normalizeTasks2 host) (Settle 0 0 (Json (JArr [row_abc])))
     (effect initial) \<and>
   Inr (tasks (step2 host md0 (Settle 0 0 (Json (JArr [row_abc]))) (effect initial))) =
     load_body host md0 (normalizeTasks2 host) (Json (JArr [row_abc]))"
proof -
  have z: "count_list strict_mode Remount = 0"
    by code_simp
  have h: "seeds host md0 (normalizeTasks host) (Settle 0 0 (Json (JArr [row_abc])))
             (effect initial)"
    "seeds host md0 (\<lambda>now. normalizeTasks2 host) (Settle 0 0 (Json (JArr [row_abc])))
             (effect initial)"
    by code_simp+
  note T = load_once_per_mount [where rt = host and md = md0 and es = strict_mode and k = 0
      and now = 0 and r = "Json (JArr [row_abc])" and s = "effect initial"]
  have a: "occurrences fetches (step host md0) strict_mode initial \<le> 1"
    using T [THEN conjunct1] z by simp
  have b: "occurrences normalizes (step2 host md0) strict_mode initial \<le> 1"
    using T [THEN conjunct2, THEN conjunct2, THEN conjunct2, THEN conjunct2, THEN conjunct1] z
    by simp
  have c: "Inr (tasks (step host md0 (Settle 0 0 (Json (JArr [row_abc]))) (effect initial))) =
     load_body host md0 (normalizeTasks host 0) (Json (JArr [row_abc]))"
    using T [THEN conjunct2, THEN conjunct2, THEN conjunct2, THEN conjunct2, THEN conjunct2,
        THEN conjunct2, THEN conjunct1] h(1) by blast
  have d: "Inr (tasks (step2 host md0 (Settle 0 0 (Json (JArr [row_abc]))) (effect initial))) =
     load_body host md0 (normalizeTasks2 host) (Json (JArr [row_abc]))"
    using T [THEN conjunct2, THEN conjunct2, THEN conjunct2, THEN conjunct2, THEN conjunct2,
        THEN conjunct2, THEN conjunct2, THEN conjunct1] h(2) by blast
  have n: "Remount \<notin> set strict_mode"
    by code_simp
  note I = T [THEN conjunct2, THEN conjunct2, THEN conjunct2, THEN conjunct2, THEN conjunct2,
        THEN conjunct2, THEN conjunct2, THEN conjunct2, THEN mp, OF n]
  have p: "occurrences fetches (step host md0) strict_mode (remount (effect initial)) \<le> 1"
    using I by blast
  have q: "occurrences (seeds host md0 (\<lambda>now. normalizeTasks2 host)) (step2 host md0)
             strict_mode (remount (effect initial)) \<le> 1"
    using I by blast
  from z n p q a b h(1) c h(2) d show ?thesis
    by (intro conjI)
qed

text \<open>
  At most once is not exactly once. When the effect runs, its cleanup runs and the effect
  runs again, the second run stops at the guard and the first load finds
  \<^verbatim>\<open>isMounted\<close> false: the tasks are never seeded and \<^verbatim>\<open>loading\<close> stays true.
\<close>

lemma strict_mode_never_seeds:
  "tasks (run (step host md0) strict_mode initial) = [] \<and>
   loading (run (step host md0) strict_mode initial)"
  by code_simp

end
